theory Spec2Isabelle
  imports Complex_Main "HOL-Library.Product_Lexorder"
begin

unbundle bit_operations_syntax

text \<open>
  The notebooks of this repository load Sentinel-1, Sentinel-2 and Landsat 8 rasters from
  a data cube, mask them, compute indices, merge the two optical sensors, aggregate the
  summers of each year into median composites and difference the composites. This theory
  embeds the per-pixel transformations of these notebooks, statement by statement, on top
  of a model of the xarray and datacube operations they call, and proves properties of
  them.
\<close>

section \<open>Data model\<close>

text \<open>
  The notebooks work on xarray arrays of dimensions (time, y, x). A cell is a float64
  value; the missing value ("no observation") is NaN. The model keeps the finite floats
  as reals and NaN as \<open>None\<close>; rounding and the infinities are outside the model.
  A pixel is a (y, x) position on the common grid, an image gives one cell per pixel,
  and an array is an association list from its time coordinate to its images, in
  coordinate order.
\<close>

type_synonym cell = "real option"
type_synonym pixel = "nat \<times> nat"
type_synonym 'a image = "pixel \<Rightarrow> 'a"

text \<open>A timestamp: (year, month, offset within the month), ordered lexicographically.\<close>

type_synonym timestamp = "int \<times> nat \<times> nat"
type_synonym 'a dataarray = "(timestamp \<times> 'a image) list"

datatype error =
  IndexError | ValueError | KeyError | NameError | AttributeError | UnsupportedIndexError

definition year :: "timestamp \<Rightarrow> int" where
  "year t = fst t"

definition month :: "timestamp \<Rightarrow> nat" where
  "month t = fst (snd t)"

datatype season = DJF | MAM | JJA | SON

text \<open>xarray's \<open>time.season\<close>: the seasons table indexed by \<open>(month // 3) % 4\<close>.\<close>

definition season_of :: "timestamp \<Rightarrow> season" where
  "season_of t = [DJF, MAM, JJA, SON] ! ((month t div 3) mod 4)"

definition time_coord :: "'a dataarray \<Rightarrow> timestamp list" where
  "time_coord da = map fst da"

text \<open>\<open>da.sel(time=t)\<close> at pixel \<open>p\<close>: \<open>None\<close> when \<open>t\<close> is not a coordinate of the array.\<close>

definition value_at :: "'a dataarray \<Rightarrow> timestamp \<Rightarrow> pixel \<Rightarrow> 'a option" where
  "value_at da t p = map_option (\<lambda>img. img p) (map_of da t)"

section \<open>xarray primitives\<close>

text \<open>
  \<open>reindex\<close>: the array on a new time coordinate, NaN where the array has no such
  timestamp (the alignment step of an outer join).
\<close>

definition reindex :: "cell dataarray \<Rightarrow> timestamp list \<Rightarrow> cell dataarray" where
  "reindex da ts =
     map (\<lambda>t. (t, case map_of da t of None \<Rightarrow> (\<lambda>p. None) | Some img \<Rightarrow> img)) ts"

text \<open>\<open>fillna\<close> on one cell: the first value unless it is NaN.\<close>

definition fillna :: "cell \<Rightarrow> cell \<Rightarrow> cell" where
  "fillna a b = (case a of None \<Rightarrow> b | Some v \<Rightarrow> Some v)"

text \<open>
  \<open>a.combine_first(b)\<close> is \<open>fillna(a, b, join="outer")\<close>: both arrays are aligned on the
  sorted union of their time coordinates, then every NaN cell of \<open>a\<close> is filled from \<open>b\<close>.
\<close>

definition combine_first :: "cell dataarray \<Rightarrow> cell dataarray \<Rightarrow> cell dataarray" where
  "combine_first a b =
     (let ts = sort (remdups (time_coord a @ time_coord b))
      in map2 (\<lambda>(t, ia) (_, ib). (t, \<lambda>p. fillna (ia p) (ib p))) (reindex a ts) (reindex b ts))"

text \<open>
  Comparisons of float cells: an ordering comparison with NaN is false, \<open>!=\<close> with
  NaN is true.
\<close>

definition cell_le :: "cell \<Rightarrow> cell \<Rightarrow> bool" where
  "cell_le a b = (case (a, b) of (Some x, Some y) \<Rightarrow> x \<le> y | _ \<Rightarrow> False)"

definition cell_ge :: "cell \<Rightarrow> cell \<Rightarrow> bool" where
  "cell_ge a b = (case (a, b) of (Some x, Some y) \<Rightarrow> x \<ge> y | _ \<Rightarrow> False)"

definition cell_gt :: "cell \<Rightarrow> cell \<Rightarrow> bool" where
  "cell_gt a b = (case (a, b) of (Some x, Some y) \<Rightarrow> x > y | _ \<Rightarrow> False)"

definition cell_ne :: "cell \<Rightarrow> cell \<Rightarrow> bool" where
  "cell_ne a b = (case (a, b) of (Some x, Some y) \<Rightarrow> x \<noteq> y | _ \<Rightarrow> True)"

text \<open>Float arithmetic on cells: NaN in, NaN out.\<close>

definition cell_add :: "cell \<Rightarrow> cell \<Rightarrow> cell" where
  "cell_add a b = (case (a, b) of (Some x, Some y) \<Rightarrow> Some (x + y) | _ \<Rightarrow> None)"

definition cell_sub :: "cell \<Rightarrow> cell \<Rightarrow> cell" where
  "cell_sub a b = (case (a, b) of (Some x, Some y) \<Rightarrow> Some (x - y) | _ \<Rightarrow> None)"

definition cell_half :: "cell \<Rightarrow> cell" where
  "cell_half a = (case a of Some x \<Rightarrow> Some (x / 2) | None \<Rightarrow> None)"

text \<open>An elementwise operation on one array.\<close>

definition unary_op :: "('a \<Rightarrow> 'b) \<Rightarrow> 'a dataarray \<Rightarrow> 'b dataarray" where
  "unary_op f da = map (\<lambda>(t, img). (t, \<lambda>p. f (img p))) da"

text \<open>
  An elementwise operation on two arrays: xarray aligns them with an inner join on the
  time coordinate (the timestamps of the first that the second has too) and applies the
  operation pixel by pixel.
\<close>

definition binary_op :: "('a \<Rightarrow> 'b \<Rightarrow> 'c) \<Rightarrow> 'a dataarray \<Rightarrow> 'b dataarray \<Rightarrow> 'c dataarray" where
  "binary_op f a b =
     List.map_filter
       (\<lambda>(t, ia). map_option (\<lambda>ib. (t, \<lambda>p. f (ia p) (ib p))) (map_of b t)) a"

text \<open>\<open>da.where(cond)\<close>: the value where the condition holds, NaN elsewhere.\<close>

definition da_where :: "cell dataarray \<Rightarrow> bool dataarray \<Rightarrow> cell dataarray" where
  "da_where da cond = binary_op (\<lambda>v c. if c then v else None) da cond"

text \<open>\<open>c1 & c2\<close> on boolean arrays.\<close>

definition da_and :: "bool dataarray \<Rightarrow> bool dataarray \<Rightarrow> bool dataarray" where
  "da_and c1 c2 = binary_op (\<lambda>x y. x \<and> y) c1 c2"

text \<open>\<open>da['time.season'] == s\<close>, broadcast over the pixels.\<close>

definition time_season_eq :: "'a dataarray \<Rightarrow> season \<Rightarrow> bool dataarray" where
  "time_season_eq da s = map (\<lambda>(t, img). (t, \<lambda>p. season_of t = s)) da"

text \<open>
  \<open>numpy.nanmedian\<close> of the cells one pixel has in a group: the NaN cells are dropped, the
  rest sorted; the middle value, or the mean of the two middle values; NaN when nothing
  is left.
\<close>

definition nanmedian :: "cell list \<Rightarrow> cell" where
  "nanmedian cs =
     (let vs = sort (List.map_filter id cs); n = length vs
      in if n = 0 then None
         else if odd n then Some (vs ! (n div 2))
         else Some ((vs ! (n div 2 - 1) + vs ! (n div 2)) / 2))"

text \<open>
  \<open>da.groupby('time.year')\<close>: one group per year that labels a timestamp of the array,
  the groups in ascending order of the year.
\<close>

definition groupby_year :: "'a dataarray \<Rightarrow> (int \<times> 'a dataarray) list" where
  "groupby_year da =
     map (\<lambda>y. (y, filter (\<lambda>(t, img). year t = y) da)) (sort (remdups (map (\<lambda>(t, img). year t) da)))"

text \<open>\<open>.median(dim='time', skipna=True)\<close> of each group: one image per year.\<close>

type_synonym composites = "(int \<times> cell image) list"

definition median_time :: "cell dataarray \<Rightarrow> cell image" where
  "median_time g = (\<lambda>p. nanmedian (map (\<lambda>(t, img). img p) g))"

definition groupby_year_median :: "cell dataarray \<Rightarrow> composites" where
  "groupby_year_median da = map (\<lambda>(y, g). (y, median_time g)) (groupby_year da)"

text \<open>
  \<open>mpspy[i,:,:]\<close>: positional indexing along the year dimension. A negative index counts
  from the end; an index outside the array raises IndexError.
\<close>

definition isel :: "composites \<Rightarrow> int \<Rightarrow> error + cell image" where
  "isel cs i =
     (if 0 \<le> i \<and> i < int (length cs) then Inr (snd (cs ! nat i))
      else if i < 0 \<and> - int (length cs) \<le> i then Inr (snd (cs ! nat (int (length cs) + i)))
      else Inl IndexError)"

definition img_add :: "cell image \<Rightarrow> cell image \<Rightarrow> cell image" where
  "img_add a b = (\<lambda>p. cell_add (a p) (b p))"

definition img_sub :: "cell image \<Rightarrow> cell image \<Rightarrow> cell image" where
  "img_sub a b = (\<lambda>p. cell_sub (a p) (b p))"

definition img_half :: "cell image \<Rightarrow> cell image" where
  "img_half a = (\<lambda>p. cell_half (a p))"

section \<open>Quality masks\<close>

text \<open>
  The notebooks build their masks with \<open>datacube.utils.masking.make_mask\<close>, whose source
  they link to. The quality band holds bit-encoded flags; its flags definition
  (\<open>pixel_qa.attrs['flags_definition']\<close>) gives every flag its bit, or list of bits, and
  the table from the value of these bits to its meaning. A required meaning is a label
  (\<open>'valid'\<close>, \<open>'clear'\<close>) or a boolean.
\<close>

datatype flag_ref = Label string | Flag bool

datatype flag_bits = Bit nat | Bits "nat list"

record flag_defn =
  bits :: flag_bits
  flag_values :: "(int \<times> flag_ref) list"

type_synonym flags_definition = "string \<rightharpoonup> flag_defn"

text \<open>
  \<open>set_value_at_index(bitmask, index, value)\<close>: the bit mask with bit \<open>index\<close> set or
  cleared. Python integers are unbounded: \<open>int\<close>.
\<close>

definition set_value_at_index :: "int \<Rightarrow> nat \<Rightarrow> bool \<Rightarrow> int" where
  "set_value_at_index bitmask index v =
     (if v then bitmask OR 2 ^ index else bitmask AND NOT (2 ^ index))"

text \<open>
  \<open>create_mask_value(bits_def, **flags)\<close>: the loop over the required flags, with the
  mask and the value it accumulates. An unknown flag, a meaning that the table of the
  flag does not hold exactly once, and a flag with an empty list of bits raise
  ValueError. A flag of several bits stores its value shifted to its lowest bit.
\<close>

fun create_mask_value ::
  "flags_definition \<Rightarrow> (string \<times> flag_ref) list \<Rightarrow> int \<Rightarrow> int \<Rightarrow> error + (int \<times> int)" where
  "create_mask_value bits_def [] msk val = Inr (msk, val)"
| "create_mask_value bits_def ((flag_name, flag_ref) # flags) msk val =
     (case bits_def flag_name of
        None \<Rightarrow> Inl ValueError
      | Some defn \<Rightarrow>
          (case filter (\<lambda>(bit_val, val_ref). val_ref = flag_ref) (flag_values defn) of
             [(flag_value, val_ref)] \<Rightarrow>
               (case bits defn of
                  Bits bs \<Rightarrow>
                    (case bs of
                       [] \<Rightarrow> Inl ValueError
                     | b # bs' \<Rightarrow>
                         create_mask_value bits_def flags
                           (fold (\<lambda>bit m. set_value_at_index m bit True) bs msk)
                           (val OR push_bit (fold min bs' b) flag_value))
                | Bit b \<Rightarrow>
                    create_mask_value bits_def flags
                      (set_value_at_index msk b True)
                      (set_value_at_index val b (flag_value \<noteq> 0)))
           | _ \<Rightarrow> Inl ValueError))"

text \<open>\<open>make_mask(variable, **flags)\<close> is \<open>variable & mask == mask_value\<close>.\<close>

definition make_mask ::
  "flags_definition \<Rightarrow> int dataarray \<Rightarrow> (string \<times> flag_ref) list \<Rightarrow> error + bool dataarray" where
  "make_mask flags_def variable flags =
     (case create_mask_value flags_def flags 0 0 of
        Inl e \<Rightarrow> Inl e
      | Inr (msk, mask_value) \<Rightarrow> Inr (unary_op (\<lambda>q. q AND msk = mask_value) variable))"

text \<open>
  What a predicate means on the flags of one pixel: the bits of the flag, read as a
  field of the pixel value, are a value that the table of the flag maps to the required
  meaning (a single bit is set when that value is not zero).
\<close>

fun field_mask :: "flag_bits \<Rightarrow> int" where
  "field_mask (Bit b) = 2 ^ b"
| "field_mask (Bits bs) = fold (\<lambda>b m. m OR 2 ^ b) bs 0"

fun field_matches :: "flag_bits \<Rightarrow> int \<Rightarrow> int \<Rightarrow> bool" where
  "field_matches (Bit b) q k = (bit q b \<longleftrightarrow> k \<noteq> 0)"
| "field_matches (Bits bs) q k = (drop_bit (Min (set bs)) (q AND field_mask (Bits bs)) = k)"

definition predicate_holds :: "flags_definition \<Rightarrow> int \<Rightarrow> string \<times> flag_ref \<Rightarrow> bool" where
  "predicate_holds fd q f =
     (case fd (fst f) of
        None \<Rightarrow> False
      | Some defn \<Rightarrow> (\<exists>(k, r) \<in> set (flag_values defn). r = snd f \<and> field_matches (bits defn) q k))"

text \<open>
  A well-formed layout for a list of predicates: no flag is named twice, the values of a
  flag of several bits fit into its bits, and the fields of different flags do not
  overlap.
\<close>

fun fits :: "flag_bits \<Rightarrow> int \<Rightarrow> bool" where
  "fits (Bit b) k = True"
| "fits (Bits bs) k = (push_bit (Min (set bs)) k AND NOT (field_mask (Bits bs)) = 0)"

fun wf_flags :: "flags_definition \<Rightarrow> (string \<times> flag_ref) list \<Rightarrow> bool" where
  "wf_flags fd [] = True"
| "wf_flags fd (f # fs) =
     (fst f \<notin> fst ` set fs \<and>
      (case fd (fst f) of
         None \<Rightarrow> True
       | Some d \<Rightarrow>
           (\<forall>(k, r) \<in> set (flag_values d). fits (bits d) k) \<and>
           (\<forall>f' \<in> set fs. case fd (fst f') of
                None \<Rightarrow> True
              | Some d' \<Rightarrow> field_mask (bits d) AND field_mask (bits d') = 0)) \<and>
      wf_flags fd fs)"

text \<open>The bits a value of a flag occupies in the mask value.\<close>

fun field_value :: "flag_bits \<Rightarrow> int \<Rightarrow> int" where
  "field_value (Bit b) k = (if k \<noteq> 0 then 2 ^ b else 0)"
| "field_value (Bits bs) k = push_bit (Min (set bs)) k"

text \<open>The predicates of the notebook (\<open>flags\<close>).\<close>

definition flags :: "(string \<times> flag_ref) list" where
  "flags = [(''valid_data'', Label ''valid''), (''cloud_state'', Label ''clear''),
            (''cloud_shadow_flag'', Flag False), (''snow_flag'', Flag False),
            (''subzero_flag'', Flag False), (''saturation_flag'', Flag False),
            (''high_sun_zenith_flag'', Flag False)]"

section \<open>The optical pipeline (Landsat 8 and Sentinel-2)\<close>

text \<open>\<open>s2_l8_ind = s2_ind.combine_first(l8_ind)\<close>\<close>

definition s2_l8_ind :: "cell dataarray \<Rightarrow> cell dataarray \<Rightarrow> cell dataarray" where
  "s2_l8_ind s2_ind l8_ind = combine_first s2_ind l8_ind"

text \<open>
  \<open>s2_l8_ind_spy = s2_l8_ind.where((s2_l8_ind['time.season'] == 'JJA')
     & (s2_l8_ind >= 0) & (s2_l8_ind <= 1))\<close>
\<close>

definition s2_l8_ind_spy :: "cell dataarray \<Rightarrow> cell dataarray" where
  "s2_l8_ind_spy ind =
     da_where ind
       (da_and (da_and (time_season_eq ind JJA) (unary_op (\<lambda>v. cell_ge v (Some 0)) ind))
               (unary_op (\<lambda>v. cell_le v (Some 1)) ind))"

text \<open>
  The observations that enter the composite of year \<open>y\<close> at pixel \<open>p\<close>: the values of
  the series at the timestamps of that year's June, July and August that lie in [0, 1].
\<close>

definition summer_values :: "cell dataarray \<Rightarrow> int \<Rightarrow> pixel \<Rightarrow> real list" where
  "summer_values ind y p =
     List.map_filter
       (\<lambda>(t, img). case img p of None \<Rightarrow> None
          | Some v \<Rightarrow> if year t = y \<and> season_of t = JJA \<and> 0 \<le> v \<and> v \<le> 1 then Some v else None)
       ind"

text \<open>\<open>mpspy = s2_l8_ind_spy.groupby('time.year').median(dim='time', skipna=True)\<close>\<close>

definition mpspy :: "cell dataarray \<Rightarrow> composites" where
  "mpspy ind = groupby_year_median (s2_l8_ind_spy ind)"

text \<open>
  \<open>diff_18 = mpspy[1,:,:] - mpspy[0,:,:]\<close>,
  \<open>diff_19 = mpspy[2,:,:] - mpspy[0,:,:]\<close>,
  \<open>diff_1819 = ((mpspy[2,:,:] + mpspy[1,:,:]) / 2) - mpspy[0,:,:]\<close>.
  The operands are evaluated from left to right; the first failing index ends the cell.
\<close>

definition diff_18 :: "composites \<Rightarrow> error + cell image" where
  "diff_18 mp =
     (case isel mp 1 of Inl e \<Rightarrow> Inl e | Inr a \<Rightarrow>
      (case isel mp 0 of Inl e \<Rightarrow> Inl e | Inr b \<Rightarrow> Inr (img_sub a b)))"

definition diff_19 :: "composites \<Rightarrow> error + cell image" where
  "diff_19 mp =
     (case isel mp 2 of Inl e \<Rightarrow> Inl e | Inr a \<Rightarrow>
      (case isel mp 0 of Inl e \<Rightarrow> Inl e | Inr b \<Rightarrow> Inr (img_sub a b)))"

definition diff_1819 :: "composites \<Rightarrow> error + cell image" where
  "diff_1819 mp =
     (case isel mp 2 of Inl e \<Rightarrow> Inl e | Inr a \<Rightarrow>
      (case isel mp 1 of Inl e \<Rightarrow> Inl e | Inr b \<Rightarrow>
       (case isel mp 0 of Inl e \<Rightarrow> Inl e | Inr c \<Rightarrow>
          Inr (img_sub (img_half (img_add a b)) c))))"

section \<open>Datasets and index computation\<close>

text \<open>
  A dataset as \<open>dc.load(..., measurements=["red", "nir", "pixel_qa"])\<close> returns it: three
  integer bands on one time coordinate, and the flags definition of the quality band.
  A masked dataset holds float variables by name.
\<close>

record odc_dataset =
  red :: "int dataarray"
  nir :: "int dataarray"
  pixel_qa :: "int dataarray"
  qa_flags_def :: flags_definition

type_synonym dataset = "string \<rightharpoonup> cell dataarray"

text \<open>
  \<open>ds.where(mask)\<close> on a dataset masks every data variable; the integer bands become
  float arrays, NaN where the mask is false.
\<close>

definition astype_float :: "int dataarray \<Rightarrow> cell dataarray" where
  "astype_float a = unary_op (\<lambda>v. Some (real_of_int v)) a"

definition ds_where :: "odc_dataset \<Rightarrow> bool dataarray \<Rightarrow> dataset" where
  "ds_where ds cond =
     [''red'' \<mapsto> da_where (astype_float (red ds)) cond,
      ''nir'' \<mapsto> da_where (astype_float (nir ds)) cond,
      ''pixel_qa'' \<mapsto> da_where (astype_float (pixel_qa ds)) cond]"

text \<open>
  Modelled from the spec: \<open>utils/bandindices.py\<close> is not among the sources. The
  normalized difference \<open>(a - b) / (a + b)\<close> of two cells (spec 4.2); a division by zero
  yields "no observation", and so does a band without observation.
\<close>

definition normalized_difference :: "cell \<Rightarrow> cell \<Rightarrow> cell" where
  "normalized_difference a b =
     (case (a, b) of
        (Some x, Some y) \<Rightarrow> if x + y = 0 then None else Some ((x - y) / (x + y))
      | _ \<Rightarrow> None)"

text \<open>
  Modelled from the spec: \<open>computeIndex(bandStack, indexName)\<close> (spec 4.2) for the two
  index names the notebook asks for. NDVI is the normalized difference of the near
  infrared and the red band; kNDVI applies a nonlinear kernel to it, which the spec does
  not fix and which is a parameter here. An unknown index name fails with
  UnsupportedIndexError.
\<close>

definition computeIndex :: "(real \<Rightarrow> real) \<Rightarrow> dataset \<Rightarrow> string \<Rightarrow> error + cell dataarray" where
  "computeIndex kern ds indexName =
     (if indexName \<noteq> ''NDVI'' \<and> indexName \<noteq> ''kNDVI'' then Inl UnsupportedIndexError
      else (case (ds ''nir'', ds ''red'') of
              (Some n, Some r) \<Rightarrow>
                if indexName = ''NDVI'' then Inr (binary_op normalized_difference n r)
                else Inr (binary_op (\<lambda>a b. map_option kern (normalized_difference a b)) n r)
            | _ \<Rightarrow> Inl KeyError))"

text \<open>
  Modelled from the spec: \<open>bandindices.optical(ds, index=[...], inplace=True, drop=False,
  normalise=False)\<close>. The index arrays are those of \<open>computeIndex\<close>. The call site fixes
  the effect: the notebook passes \<open>inplace=True\<close>, discards the result and reads
  \<open>s2.NDVI\<close> afterwards, so each index is stored in the dataset the function was given,
  under its name. The function returns the dataset as the call leaves it.
\<close>

fun optical :: "(real \<Rightarrow> real) \<Rightarrow> dataset \<Rightarrow> string list \<Rightarrow> error + dataset" where
  "optical kern ds [] = Inr ds"
| "optical kern ds (i # idx) =
     (case computeIndex kern ds i of
        Inl e \<Rightarrow> Inl e
      | Inr a \<Rightarrow> optical kern (ds(i \<mapsto> a)) idx)"

section \<open>The notebook as a sequence of stages\<close>

text \<open>
  The variables of the notebook: a store from their names to the objects they are bound
  to. A stage reads its inputs from the store and returns the store as it leaves it; a
  variable that is not bound to an object of the kind the stage needs ends it with
  NameError, a missing data variable with AttributeError.
\<close>

datatype obj =
  Loaded odc_dataset | Dataset dataset | Array "cell dataarray" | Mask "bool dataarray"
  | Composites composites | Raster "cell image"

type_synonym store = "string \<rightharpoonup> obj"

definition and_then :: "error + 'a \<Rightarrow> ('a \<Rightarrow> error + 'b) \<Rightarrow> error + 'b" where
  "and_then m f = (case m of Inl e \<Rightarrow> Inl e | Inr x \<Rightarrow> f x)"

definition get_loaded :: "store \<Rightarrow> string \<Rightarrow> error + odc_dataset" where
  "get_loaded st n = (case st n of Some (Loaded d) \<Rightarrow> Inr d | _ \<Rightarrow> Inl NameError)"

definition get_dataset :: "store \<Rightarrow> string \<Rightarrow> error + dataset" where
  "get_dataset st n = (case st n of Some (Dataset d) \<Rightarrow> Inr d | _ \<Rightarrow> Inl NameError)"

definition get_composites :: "store \<Rightarrow> string \<Rightarrow> error + composites" where
  "get_composites st n = (case st n of Some (Composites c) \<Rightarrow> Inr c | _ \<Rightarrow> Inl NameError)"

definition get_var :: "dataset \<Rightarrow> string \<Rightarrow> error + cell dataarray" where
  "get_var ds v = (case ds v of Some a \<Rightarrow> Inr a | None \<Rightarrow> Inl AttributeError)"

text \<open>
  Masking: \<open>mask_s2 = masking.make_mask(ds_s2.pixel_qa, **flags)\<close>,
  \<open>s2 = ds_s2.where(mask_s2)\<close>, and the same for Landsat 8.
\<close>

definition stage_mask :: "store \<Rightarrow> error + store" where
  "stage_mask st =
     and_then (get_loaded st ''ds_s2'') (\<lambda>d2.
     and_then (make_mask (qa_flags_def d2) (pixel_qa d2) flags) (\<lambda>m2.
     and_then (get_loaded st ''ds_l8'') (\<lambda>d8.
     and_then (make_mask (qa_flags_def d8) (pixel_qa d8) flags) (\<lambda>m8.
       Inr (st(''mask_s2'' \<mapsto> Mask m2, ''mask_l8'' \<mapsto> Mask m8,
               ''s2'' \<mapsto> Dataset (ds_where d2 m2), ''l8'' \<mapsto> Dataset (ds_where d8 m8)))))))"

text \<open>
  Index computation: \<open>bandindices.optical(s2, index=["NDVI", "kNDVI"], inplace=True, ...)\<close>
  and the same for \<open>l8\<close>; no variable is assigned, the two datasets change in place.
\<close>

definition stage_index :: "(real \<Rightarrow> real) \<Rightarrow> store \<Rightarrow> error + store" where
  "stage_index kern st =
     and_then (get_dataset st ''s2'') (\<lambda>a.
     and_then (optical kern a [''NDVI'', ''kNDVI'']) (\<lambda>a'.
     and_then (get_dataset (st(''s2'' \<mapsto> Dataset a')) ''l8'') (\<lambda>b.
     and_then (optical kern b [''NDVI'', ''kNDVI'']) (\<lambda>b'.
       Inr (st(''s2'' \<mapsto> Dataset a', ''l8'' \<mapsto> Dataset b'))))))"

text \<open>
  Merge and aggregation: \<open>s2_ind = s2.NDVI\<close>, \<open>l8_ind = l8.NDVI\<close>, the merged series, its
  filtered copy and the composites.
\<close>

definition stage_aggregate :: "store \<Rightarrow> error + store" where
  "stage_aggregate st =
     and_then (get_dataset st ''s2'') (\<lambda>a.
     and_then (get_var a ''NDVI'') (\<lambda>s2_ind.
     and_then (get_dataset st ''l8'') (\<lambda>b.
     and_then (get_var b ''NDVI'') (\<lambda>l8_ind.
       Inr (st(''s2_ind'' \<mapsto> Array s2_ind, ''l8_ind'' \<mapsto> Array l8_ind,
               ''s2_l8_ind'' \<mapsto> Array (s2_l8_ind s2_ind l8_ind),
               ''s2_l8_ind_spy'' \<mapsto> Array (s2_l8_ind_spy (s2_l8_ind s2_ind l8_ind)),
               ''mpspy'' \<mapsto> Composites (mpspy (s2_l8_ind s2_ind l8_ind))))))))"

text \<open>Differencing: \<open>diff_18\<close>, \<open>diff_19\<close> and \<open>diff_1819\<close> from \<open>mpspy\<close>.\<close>

definition stage_diff :: "store \<Rightarrow> error + store" where
  "stage_diff st =
     and_then (get_composites st ''mpspy'') (\<lambda>mp.
     and_then (diff_18 mp) (\<lambda>d18.
     and_then (diff_19 mp) (\<lambda>d19.
     and_then (diff_1819 mp) (\<lambda>d1819.
       Inr (st(''diff_18'' \<mapsto> Raster d18, ''diff_19'' \<mapsto> Raster d19,
               ''diff_1819'' \<mapsto> Raster d1819))))))"

section \<open>The SAR pipeline (Sentinel-1)\<close>

text \<open>
  A Sentinel-1 dataset of one orbit: the VH backscatter, the VV/VH ratio that
  \<open>bandindices.sar\<close> stored in it, the nodata value of the VH band
  (\<open>ds.VH.attrs['nodata']\<close>) and the pixels of its grid.
\<close>

record s1_dataset =
  VH :: "cell dataarray"
  VVVH :: "cell dataarray"
  nodata :: real
  grid :: "pixel list"

text \<open>
  \<open>da.quantile(q)\<close> over all dimensions, NaN skipped, with numpy's linear interpolation
  between the two nearest ranks.
\<close>

definition all_values :: "pixel list \<Rightarrow> cell dataarray \<Rightarrow> cell list" where
  "all_values g da = concat (map (\<lambda>(t, img). map img g) da)"

definition quantile :: "pixel list \<Rightarrow> cell dataarray \<Rightarrow> real \<Rightarrow> cell" where
  "quantile g da q =
     (let vs = sort (List.map_filter id (all_values g da)); n = length vs
      in if n = 0 then None
         else (let h = q * real (n - 1); lo = nat \<lfloor>h\<rfloor>; hi = min (lo + 1) (n - 1)
               in Some (vs ! lo + (h - real lo) * (vs ! hi - vs ! lo))))"

text \<open>
  The condition of all four filter lines of the notebook:
  \<open>(ds.VH != nodata) & (ds.VH >= ds.VH.quantile(0.05)) & (ds.VH <= ds.VH.quantile(0.95))\<close>
\<close>

definition vh_cond :: "s1_dataset \<Rightarrow> bool dataarray" where
  "vh_cond ds =
     da_and (da_and (unary_op (\<lambda>v. cell_ne v (Some (nodata ds))) (VH ds))
                    (unary_op (\<lambda>v. cell_ge v (quantile (grid ds) (VH ds) (5/100))) (VH ds)))
            (unary_op (\<lambda>v. cell_le v (quantile (grid ds) (VH ds) (95/100))) (VH ds))"

definition vh_asc :: "s1_dataset \<Rightarrow> cell dataarray" where
  "vh_asc ds = da_where (VH ds) (vh_cond ds)"

definition vvvh_asc :: "s1_dataset \<Rightarrow> cell dataarray" where
  "vvvh_asc ds = da_where (VVVH ds) (vh_cond ds)"

text \<open>
  \<open>mpspy_vh_asc = vh_asc.where(vh_asc['time.season'] == 'JJA').groupby('time.year')
     .median(dim='time', skipna=True)\<close>
\<close>

definition mpspy_vh_asc :: "s1_dataset \<Rightarrow> composites" where
  "mpspy_vh_asc ds =
     groupby_year_median (da_where (vh_asc ds) (time_season_eq (vh_asc ds) JJA))"

text \<open>
  \<open>diff_1819_vh_asc = ((mpspy_vh_asc[2,:,:] + mpspy_vh_asc[1,:,:]) / 2) - mpspy_vh_asc[0,:,:]\<close>
\<close>

definition diff_1819_vh_asc :: "s1_dataset \<Rightarrow> error + cell image" where
  "diff_1819_vh_asc ds = diff_1819 (mpspy_vh_asc ds)"

section \<open>Observations per pixel (SAR)\<close>

text \<open>
  \<open>count = xr.where(ds.VH > nodata, True, False).sum(dim="time")\<close>: per pixel, the number
  of timestamps at which the condition holds.
\<close>

definition sum_time :: "bool dataarray \<Rightarrow> nat image" where
  "sum_time da = (\<lambda>p. sum_list (map (\<lambda>(t, img). if img p then 1 else 0) da))"

definition count :: "s1_dataset \<Rightarrow> nat image" where
  "count ds = sum_time (unary_op (\<lambda>v. cell_gt v (Some (nodata ds))) (VH ds))"

section \<open>Example data\<close>

text \<open>
  A one-pixel index series over three years: an out-of-range value in July 2017, a masked
  July 2018 with an observation only in December, and one observation in June 2019.
\<close>

definition ex_ind :: "cell dataarray" where
  "ex_ind = [((2017, 6, 1), \<lambda>p. Some (1/2)), ((2017, 7, 1), \<lambda>p. Some (3/2)),
             ((2018, 7, 1), \<lambda>p. None), ((2018, 12, 1), \<lambda>p. Some (3/4)),
             ((2019, 6, 1), \<lambda>p. Some (1/4))]"

text \<open>Three one-pixel composites; the one of 2018 holds "no observation".\<close>

definition ex_mpspy :: composites where
  "ex_mpspy = [(2017, \<lambda>p. Some (1/2)), (2018, \<lambda>p. None), (2019, \<lambda>p. Some (1/4))]"

text \<open>
  A one-pixel Sentinel-1 dataset: a nodata acquisition, two observations, a NaN cell and
  a value below the nodata value; the 5 % and 95 % quantiles of its VH band are
  -9999.85 and -14.15.
\<close>

definition ex_s1 :: s1_dataset where
  "ex_s1 = \<lparr>VH = [((2017, 6, 1), \<lambda>p. Some (-9999)), ((2017, 6, 13), \<lambda>p. Some (-15)),
                 ((2017, 6, 25), \<lambda>p. Some (-14)), ((2017, 7, 7), \<lambda>p. None),
                 ((2017, 7, 19), \<lambda>p. Some (-10000))],
            VVVH = [((2017, 6, 1), \<lambda>p. Some (1/2)), ((2017, 6, 13), \<lambda>p. Some (3/4)),
                 ((2017, 6, 25), \<lambda>p. Some (2/3)), ((2017, 7, 7), \<lambda>p. Some (1/3)),
                 ((2017, 7, 19), \<lambda>p. Some (1/5))],
            nodata = -9999, grid = [(0, 0)]\<rparr>"

text \<open>
  A one-pixel Sentinel-1 dataset of three summers; the acquisition of 2018 is nodata.
\<close>

definition ex_s1_years :: s1_dataset where
  "ex_s1_years = \<lparr>VH = [((2017, 7, 1), \<lambda>p. Some (-15)), ((2018, 7, 1), \<lambda>p. Some (-9999)),
                       ((2019, 7, 1), \<lambda>p. Some (-15))],
                  VVVH = [], nodata = -9999, grid = [(0, 0)]\<rparr>"

text \<open>
  A flags definition with the quality bits the notebook names, laid out as in the
  product description the notebooks link to, and a quality band of three pixels: clear,
  cloud shadow, and a cloud state other than clear.
\<close>

definition ex_flags_def :: flags_definition where
  "ex_flags_def =
     [''valid_data'' \<mapsto> \<lparr>bits = Bit 0, flag_values = [(0, Label ''valid''), (1, Label ''no data'')]\<rparr>,
      ''cloud_state'' \<mapsto> \<lparr>bits = Bits [1, 2],
          flag_values = [(0, Label ''clear''), (1, Label ''less confident''),
                         (2, Label ''confident''), (3, Label ''cirrus'')]\<rparr>,
      ''cloud_shadow_flag'' \<mapsto> \<lparr>bits = Bit 3, flag_values = [(0, Flag False), (1, Flag True)]\<rparr>,
      ''snow_flag'' \<mapsto> \<lparr>bits = Bit 4, flag_values = [(0, Flag False), (1, Flag True)]\<rparr>,
      ''subzero_flag'' \<mapsto> \<lparr>bits = Bit 8, flag_values = [(0, Flag False), (1, Flag True)]\<rparr>,
      ''saturation_flag'' \<mapsto> \<lparr>bits = Bit 9, flag_values = [(0, Flag False), (1, Flag True)]\<rparr>,
      ''high_sun_zenith_flag'' \<mapsto> \<lparr>bits = Bit 10, flag_values = [(0, Flag False), (1, Flag True)]\<rparr>]"

definition ex_qa :: "int dataarray" where
  "ex_qa = [((2017, 6, 1), \<lambda>p. if p = (0, 0) then 0 else if p = (0, 1) then 8 else 2)]"

text \<open>
  A masked dataset of two timestamps whose bands are both zero at the first one, a loaded
  dataset, and stores that bind the inputs of each stage.
\<close>

definition ex_masked :: dataset where
  "ex_masked = [''red'' \<mapsto> [((2017, 6, 1), \<lambda>p. Some 0), ((2017, 7, 1), \<lambda>p. Some 1)],
                ''nir'' \<mapsto> [((2017, 6, 1), \<lambda>p. Some 0), ((2017, 7, 1), \<lambda>p. Some 3)]]"

definition ex_store :: store where
  "ex_store = [''s2'' \<mapsto> Dataset ex_masked, ''l8'' \<mapsto> Dataset ex_masked]"

definition ex_ds :: odc_dataset where
  "ex_ds = \<lparr>red = [((2017, 6, 1), \<lambda>p. 400)], nir = [((2017, 6, 1), \<lambda>p. 3000)],
            pixel_qa = ex_qa, qa_flags_def = ex_flags_def\<rparr>"

definition ex_loaded_store :: store where
  "ex_loaded_store = [''ds_s2'' \<mapsto> Loaded ex_ds, ''ds_l8'' \<mapsto> Loaded ex_ds]"

definition ex_index_store :: store where
  "ex_index_store = [''s2'' \<mapsto> Dataset [''NDVI'' \<mapsto> ex_ind], ''l8'' \<mapsto> Dataset [''NDVI'' \<mapsto> []]]"

definition ex_composites_store :: store where
  "ex_composites_store = [''mpspy'' \<mapsto> Composites ex_mpspy]"

section \<open>Lemmas about the array primitives\<close>

lemma map_of_unary_op:
  "map_of (unary_op f da) t = map_option (\<lambda>img p. f (img p)) (map_of da t)"
  by (induction da) (auto simp: unary_op_def)

lemma map_of_time_season_eq:
  "map_of (time_season_eq da s) t = map_option (\<lambda>img p. season_of t = s) (map_of da t)"
  by (induction da) (auto simp: time_season_eq_def)

lemma map_of_binary_op:
  "map_of (binary_op f a b) t =
     (case map_of a t of None \<Rightarrow> None
      | Some ia \<Rightarrow> (case map_of b t of None \<Rightarrow> None
                    | Some ib \<Rightarrow> Some (\<lambda>p. f (ia p) (ib p))))"
  by (induction a) (auto simp: binary_op_def map_filter_simps split: option.splits)

lemma binary_op_total:
  assumes "\<And>t ia. (t, ia) \<in> set a \<Longrightarrow> map_of b t = Some (g t)"
  shows "binary_op f a b = map (\<lambda>(t, ia). (t, \<lambda>p. f (ia p) (g t p))) a"
  using assms
proof (induction a)
  case Nil
  show ?case by (simp add: binary_op_def map_filter_simps)
next
  case (Cons x xs)
  obtain t ia where x: "x = (t, ia)" by (cases x)
  have 1: "map_of b t = Some (g t)" using Cons.prems [of t ia] x by simp
  have 2: "binary_op f xs b = map (\<lambda>(t, ia). (t, \<lambda>p. f (ia p) (g t p))) xs"
  proof (rule Cons.IH)
    fix t ia assume "(t, ia) \<in> set xs"
    then show "map_of b t = Some (g t)" using Cons.prems [of t ia] by simp
  qed
  show ?case using 1 2 x by (simp add: binary_op_def map_filter_simps)
qed

lemma s2_l8_ind_spy_entries:
  "s2_l8_ind_spy ind =
     map (\<lambda>(t, ia). (t, \<lambda>p. if season_of t = JJA \<and> cell_ge (the (map_of ind t) p) (Some 0)
                                  \<and> cell_le (the (map_of ind t) p) (Some 1)
                              then ia p else None)) ind"
proof -
  have "binary_op (\<lambda>v c. if c then v else None) ind
          (da_and (da_and (time_season_eq ind JJA) (unary_op (\<lambda>v. cell_ge v (Some 0)) ind))
               (unary_op (\<lambda>v. cell_le v (Some 1)) ind))
        = map (\<lambda>(t, ia). (t, \<lambda>p. (\<lambda>v c. if c then v else None) (ia p)
              ((\<lambda>t p. (season_of t = JJA \<and> cell_ge (the (map_of ind t) p) (Some 0)) \<and> cell_le (the (map_of ind t) p) (Some 1)) t p))) ind"
  proof (rule binary_op_total)
    fix t ia assume "(t, ia) \<in> set ind"
    then obtain i0 where "map_of ind t = Some i0"
      by (metis weak_map_of_SomeI)
    then show "map_of (da_and (da_and (time_season_eq ind JJA) (unary_op (\<lambda>v. cell_ge v (Some 0)) ind))
               (unary_op (\<lambda>v. cell_le v (Some 1)) ind)) t =
      Some (\<lambda>p. (season_of t = JJA \<and> cell_ge (the (map_of ind t) p) (Some 0)) \<and> cell_le (the (map_of ind t) p) (Some 1))"
      by (simp add: da_and_def map_of_binary_op map_of_time_season_eq map_of_unary_op)
  qed
  then show ?thesis by (simp add: s2_l8_ind_spy_def da_where_def)
qed

lemma s2_l8_ind_spy_unfold:
  assumes "distinct (time_coord ind)"
  shows "s2_l8_ind_spy ind =
     map (\<lambda>(t, ia). (t, \<lambda>p. if season_of t = JJA \<and> cell_ge (ia p) (Some 0) \<and> cell_le (ia p) (Some 1)
                              then ia p else None)) ind"
proof -
  have d: "distinct (map fst ind)" using assms by (simp add: time_coord_def)
  show ?thesis
    unfolding s2_l8_ind_spy_entries by (rule map_cong) (auto simp: d)
qed

lemma time_coord_groupby_year_median:
  "map fst (groupby_year_median da) = sort (remdups (map year (time_coord da)))"
  by (simp add: groupby_year_median_def groupby_year_def time_coord_def o_def case_prod_unfold)

lemma map_of_groupby_year_median:
  "map_of (groupby_year_median da) y =
     (if y \<in> year ` set (time_coord da)
      then Some (median_time (filter (\<lambda>(t, img). year t = y) da)) else None)"
proof -
  have "groupby_year_median da =
      map (\<lambda>y. (y, median_time (filter (\<lambda>(t, img). year t = y) da)))
          (sort (remdups (map (\<lambda>(t, img). year t) da)))"
    by (simp add: groupby_year_median_def groupby_year_def o_def)
  then show ?thesis
    by (auto simp: map_of_map_restrict restrict_map_def time_coord_def image_iff case_prod_unfold)
qed

lemma nanmedian_cong:
  "List.map_filter id cs = List.map_filter id ds \<Longrightarrow> nanmedian cs = nanmedian ds"
  by (simp add: nanmedian_def)

lemma map_filter_id_Some: "List.map_filter id (map Some vs) = vs"
  by (induction vs) (simp_all add: map_filter_simps)

lemma summer_cells:
  "List.map_filter id
     (map (\<lambda>(t, img). img p)
        (filter (\<lambda>(t, img). year t = y)
           (map (\<lambda>(t, ia). (t, \<lambda>p. if season_of t = JJA \<and> cell_ge (ia p) (Some 0) \<and> cell_le (ia p) (Some 1)
                              then ia p else None)) ind)))
   = summer_values ind y p"
proof (induction ind)
  case Nil
  show ?case by (simp add: summer_values_def map_filter_simps)
next
  case (Cons x xs)
  obtain t ia where x: "x = (t, ia)" by (cases x)
  show ?case using Cons.IH x
    by (cases "ia p") (simp_all add: summer_values_def map_filter_simps cell_ge_def cell_le_def)
qed

lemma mpspy_value:
  assumes "distinct (time_coord ind)"
  shows "map_of (mpspy ind) y =
     (if y \<in> year ` set (time_coord ind)
      then Some (\<lambda>p. nanmedian (map Some (summer_values ind y p))) else None)"
proof -
  have tc: "time_coord (s2_l8_ind_spy ind) = time_coord ind"
    by (simp add: s2_l8_ind_spy_unfold [OF assms] time_coord_def o_def case_prod_unfold)
  have "median_time (filter (\<lambda>(t, img). year t = y) (s2_l8_ind_spy ind)) p
          = nanmedian (map Some (summer_values ind y p))" for p
    unfolding median_time_def s2_l8_ind_spy_unfold [OF assms]
    by (rule nanmedian_cong) (simp only: summer_cells map_filter_id_Some)
  then have "median_time (filter (\<lambda>(t, img). year t = y) (s2_l8_ind_spy ind))
          = (\<lambda>p. nanmedian (map Some (summer_values ind y p)))"
    by (rule ext)
  then show ?thesis
    by (simp add: mpspy_def map_of_groupby_year_median tc)
qed

lemma nanmedian_Nil: "nanmedian [] = None"
  by (simp add: nanmedian_def map_filter_simps)

lemma time_coord_s2_l8_ind_spy: "time_coord (s2_l8_ind_spy ind) = time_coord ind"
  by (simp add: s2_l8_ind_spy_entries time_coord_def o_def case_prod_unfold)

lemma nanmedian_all_None: "(\<And>c. c \<in> set cs \<Longrightarrow> c = None) \<Longrightarrow> nanmedian cs = None"
proof -
  assume h: "\<And>c. c \<in> set cs \<Longrightarrow> c = None"
  have "set cs \<subseteq> {None}" using h by auto
  then have "List.map_filter id cs = []"
    by (induction cs) (simp_all add: map_filter_simps)
  then show ?thesis by (simp add: nanmedian_def)
qed

section \<open>Cross-sensor merge\<close>

lemma map_of_combine_first:
  "map_of (combine_first a b) t =
     (if t \<in> set (time_coord a) \<union> set (time_coord b)
      then Some (\<lambda>p. fillna ((case map_of a t of None \<Rightarrow> (\<lambda>p. None) | Some img \<Rightarrow> img) p)
                             ((case map_of b t of None \<Rightarrow> (\<lambda>p. None) | Some img \<Rightarrow> img) p))
      else None)"
  by (simp add: combine_first_def reindex_def Let_def zip_map_map zip_same_conv_map
      map_of_map_restrict restrict_map_def o_def)

lemma map_of_time_coord: "t \<in> set (time_coord a) \<Longrightarrow> \<exists>img. map_of a t = Some img"
  by (metis time_coord_def domD dom_map_of_conv_image_fst set_map)

lemma map_of_not_time_coord: "t \<notin> set (time_coord a) \<Longrightarrow> map_of a t = None"
  by (simp add: time_coord_def map_of_eq_None_iff)

text \<open>
  C1 (amended). At a timestamp that only the secondary array has, the merged value at
  every pixel is the secondary's value. At a timestamp both arrays have, the merged value
  is the primary's value where the primary holds an observation, and the secondary's
  value where the primary holds "no observation".
\<close>

theorem combine_first_precedence:
  "(t \<notin> set (time_coord a) \<and> t \<in> set (time_coord b) \<longrightarrow>
      value_at (combine_first a b) t p = value_at b t p) \<and>
   (t \<in> set (time_coord a) \<and> t \<in> set (time_coord b) \<longrightarrow>
      value_at (combine_first a b) t p =
        (case value_at a t p of Some (Some v) \<Rightarrow> Some (Some v) | _ \<Rightarrow> value_at b t p))"
proof (intro conjI impI)
  assume h: "t \<notin> set (time_coord a) \<and> t \<in> set (time_coord b)"
  then obtain ib where "map_of b t = Some ib" using map_of_time_coord by blast
  moreover have "map_of a t = None" using h map_of_not_time_coord by blast
  ultimately show "value_at (combine_first a b) t p = value_at b t p"
    using h by (simp add: value_at_def map_of_combine_first fillna_def)
next
  assume h: "t \<in> set (time_coord a) \<and> t \<in> set (time_coord b)"
  then obtain ia ib where "map_of a t = Some ia" "map_of b t = Some ib"
    using map_of_time_coord by blast
  then show "value_at (combine_first a b) t p =
        (case value_at a t p of Some (Some v) \<Rightarrow> Some (Some v) | _ \<Rightarrow> value_at b t p)"
    using h by (simp add: value_at_def map_of_combine_first fillna_def split: option.splits)
qed

theorem combine_first_precedence_witness:
  "value_at (combine_first [((2017, 6, 1), \<lambda>p. Some (1/4))]
                           [((2017, 6, 1), \<lambda>p. Some (1/2)), ((2017, 7, 3), \<lambda>p. Some (3/4))])
            (2017, 7, 3) (0, 0) = Some (Some (3/4)) \<and>
   value_at (combine_first [((2017, 6, 1), \<lambda>p. Some (1/4))]
                           [((2017, 6, 1), \<lambda>p. Some (1/2)), ((2017, 7, 3), \<lambda>p. Some (3/4))])
            (2017, 6, 1) (0, 0) = Some (Some (1/4))"
  using combine_first_precedence [of "(2017, 7, 3)" "[((2017, 6, 1), \<lambda>p. Some (1/4))]"
      "[((2017, 6, 1), \<lambda>p. Some (1/2)), ((2017, 7, 3), \<lambda>p. Some (3/4))]" "(0, 0)"]
    combine_first_precedence [of "(2017, 6, 1)" "[((2017, 6, 1), \<lambda>p. Some (1/4))]"
      "[((2017, 6, 1), \<lambda>p. Some (1/2)), ((2017, 7, 3), \<lambda>p. Some (3/4))]" "(0, 0)"]
  by (simp add: time_coord_def value_at_def)

text \<open>
  The primary is masked at a timestamp both arrays have and the secondary is not: the
  merged value is the secondary's 1/2, not the primary's "no observation".
\<close>

theorem combine_first_primary_counterexample:
  "(2017, 6, 1) \<in> set (time_coord [((2017, 6, 1), \<lambda>p. None :: cell)]) \<and>
   (2017, 6, 1) \<in> set (time_coord [((2017, 6, 1), \<lambda>p. Some (1/2) :: cell)]) \<and>
   value_at (combine_first [((2017, 6, 1), \<lambda>p. None)] [((2017, 6, 1), \<lambda>p. Some (1/2))])
            (2017, 6, 1) (0, 0)
     \<noteq> value_at [((2017, 6, 1), \<lambda>p. None :: cell)] (2017, 6, 1) (0, 0)"
  by (simp add: time_coord_def value_at_def map_of_combine_first fillna_def)

section \<open>Seasonal aggregation\<close>

text \<open>
  C3. The composites of \<open>mpspy\<close> are in strictly ascending order of the year and there is
  one for every year that labels a timestamp of the series. Where a pixel has no
  observation at any June, July or August timestamp of such a year, the year's composite
  is still there and holds "no observation" at that pixel.
\<close>

theorem empty_group_emitted_as_nan:
  "sorted_wrt (<) (map fst (mpspy ind)) \<and>
   set (map fst (mpspy ind)) = year ` set (time_coord ind) \<and>
   (\<forall>y \<in> year ` set (time_coord ind). \<forall>p.
      (\<forall>(t, img) \<in> set ind. year t = y \<and> season_of t = JJA \<longrightarrow> img p = None) \<longrightarrow>
      (\<exists>img. map_of (mpspy ind) y = Some img \<and> img p = None))"
proof (intro conjI ballI allI impI)
  have m: "map fst (mpspy ind) = sort (remdups (map year (time_coord ind)))"
    by (simp add: mpspy_def time_coord_groupby_year_median time_coord_s2_l8_ind_spy)
  show "sorted_wrt (<) (map fst (mpspy ind))"
    unfolding m by (simp add: strict_sorted_iff)
  show "set (map fst (mpspy ind)) = year ` set (time_coord ind)"
    unfolding m by simp
next
  fix y p
  assume y: "y \<in> year ` set (time_coord ind)"
    and h: "\<forall>(t, img) \<in> set ind. year t = y \<and> season_of t = JJA \<longrightarrow> img p = None"
  have "median_time (filter (\<lambda>(t, img). year t = y) (s2_l8_ind_spy ind)) p = None"
    unfolding median_time_def
  proof (rule nanmedian_all_None)
    fix c
    assume "c \<in> set (map (\<lambda>(t, img). img p) (filter (\<lambda>(t, img). year t = y) (s2_l8_ind_spy ind)))"
    then obtain t ia where "(t, ia) \<in> set ind" "year t = y"
      and c: "c = (if season_of t = JJA \<and> cell_ge (the (map_of ind t) p) (Some 0)
                                  \<and> cell_le (the (map_of ind t) p) (Some 1)
                              then ia p else None)"
      by (auto simp: s2_l8_ind_spy_entries)
    then show "c = None" using h by auto
  qed
  then show "\<exists>img. map_of (mpspy ind) y = Some img \<and> img p = None"
    using y by (simp add: mpspy_def map_of_groupby_year_median time_coord_s2_l8_ind_spy)
qed

theorem empty_group_emitted_as_nan_witness:
  "sorted_wrt (<) (map fst (mpspy ex_ind)) \<and>
   set (map fst (mpspy ex_ind)) = {2017, 2018, 2019} \<and>
   (\<exists>img. map_of (mpspy ex_ind) 2018 = Some img \<and> img (0, 0) = None)"
  using empty_group_emitted_as_nan [of ex_ind]
  by (simp add: ex_ind_def time_coord_def year_def season_of_def month_def)

lemma value_at_s2_l8_ind_spy:
  "value_at (s2_l8_ind_spy ind) t p =
     map_option (\<lambda>c. if season_of t = JJA \<and> cell_ge c (Some 0) \<and> cell_le c (Some 1) then c else None)
       (value_at ind t p)"
  by (simp add: value_at_def s2_l8_ind_spy_def da_where_def da_and_def map_of_binary_op
      map_of_time_season_eq map_of_unary_op split: option.splits)

lemma summer_values_range: "w \<in> set (summer_values ind y p) \<Longrightarrow> 0 \<le> w \<and> w \<le> 1"
  by (auto simp: summer_values_def List.map_filter_def split: option.splits if_splits)

lemma distinct_time_coord_combine_first: "distinct (time_coord (combine_first a b))"
  by (simp add: combine_first_def reindex_def Let_def time_coord_def zip_map_map
      zip_same_conv_map o_def)

text \<open>
  C8. In the optical pipeline a value of the merged index series below 0 or above 1 is
  replaced by "no observation" before the aggregation, whatever the quality mask said,
  and it is not among the values the seasonal median of its year is taken over: the
  composite is the median of the summer values in [0, 1].
\<close>

theorem range_filter_before_median:
  assumes "value_at (s2_l8_ind s2_ind l8_ind) t p = Some (Some v)" and "v < 0 \<or> 1 < v"
  shows "value_at (s2_l8_ind_spy (s2_l8_ind s2_ind l8_ind)) t p = Some None \<and>
         v \<notin> set (summer_values (s2_l8_ind s2_ind l8_ind) (year t) p) \<and>
         map_of (mpspy (s2_l8_ind s2_ind l8_ind)) (year t) =
           Some (\<lambda>q. nanmedian (map Some (summer_values (s2_l8_ind s2_ind l8_ind) (year t) q)))"
proof (intro conjI)
  define ind where "ind = s2_l8_ind s2_ind l8_ind"
  have d: "distinct (time_coord ind)"
    by (simp add: ind_def s2_l8_ind_def distinct_time_coord_combine_first)
  have v: "value_at ind t p = Some (Some v)" using assms(1) by (simp add: ind_def)
  then show "value_at (s2_l8_ind_spy (s2_l8_ind s2_ind l8_ind)) t p = Some None"
    using assms(2) by (auto simp: value_at_s2_l8_ind_spy cell_ge_def cell_le_def ind_def)
  show "v \<notin> set (summer_values (s2_l8_ind s2_ind l8_ind) (year t) p)"
    using assms(2) summer_values_range [of v "s2_l8_ind s2_ind l8_ind" "year t" p] by auto
  have "map_of ind t \<noteq> None" using v by (auto simp: value_at_def)
  then have "t \<in> set (time_coord ind)"
    by (rule contrapos_np) (rule map_of_not_time_coord)
  then have "year t \<in> year ` set (time_coord ind)" by simp
  then show "map_of (mpspy (s2_l8_ind s2_ind l8_ind)) (year t) =
           Some (\<lambda>q. nanmedian (map Some (summer_values (s2_l8_ind s2_ind l8_ind) (year t) q)))"
    using mpspy_value [OF d] by (simp add: ind_def)
qed

lemma s2_l8_ind_ex: "s2_l8_ind (take 2 ex_ind) (drop 2 ex_ind) = ex_ind"
  by (simp add: s2_l8_ind_def combine_first_def reindex_def time_coord_def ex_ind_def fillna_def)

theorem range_filter_before_median_witness:
  "value_at (s2_l8_ind_spy (s2_l8_ind (take 2 ex_ind) (drop 2 ex_ind))) (2017, 7, 1) (0, 0)
     = Some None \<and>
   (\<exists>img. map_of (mpspy (s2_l8_ind (take 2 ex_ind) (drop 2 ex_ind))) 2017 = Some img \<and>
      img (0, 0) = Some (1/2))"
proof -
  have v: "value_at (s2_l8_ind (take 2 ex_ind) (drop 2 ex_ind)) (2017, 7, 1) (0, 0)
      = Some (Some (3/2))"
    by (simp add: s2_l8_ind_ex) (simp add: ex_ind_def value_at_def)
  have s: "nanmedian (map Some (summer_values ex_ind 2017 (0, 0))) = Some (1/2)"
    by (simp add: ex_ind_def summer_values_def map_filter_simps nanmedian_def year_def
        season_of_def month_def)
  show ?thesis
    using range_filter_before_median [OF v] s by (simp add: s2_l8_ind_ex year_def)
qed

section \<open>Temporal differences\<close>

lemma img_sub_None: "a p = None \<or> b p = None \<Longrightarrow> img_sub a b p = None"
  by (auto simp: img_sub_def cell_sub_def split: option.splits)

lemma img_add_None: "a p = None \<or> b p = None \<Longrightarrow> img_add a b p = None"
  by (auto simp: img_add_def cell_add_def split: option.splits)

lemma img_half_None: "a p = None \<Longrightarrow> img_half a p = None"
  by (simp add: img_half_def cell_half_def)

lemma diff_18_nan:
  "diff_18 mp = Inr d \<Longrightarrow> isel mp 1 = Inr a \<Longrightarrow> isel mp 0 = Inr b \<Longrightarrow>
     a p = None \<or> b p = None \<Longrightarrow> d p = None"
  unfolding diff_18_def using img_sub_None [of a p b] by auto

lemma diff_19_nan:
  "diff_19 mp = Inr d \<Longrightarrow> isel mp 2 = Inr a \<Longrightarrow> isel mp 0 = Inr b \<Longrightarrow>
     a p = None \<or> b p = None \<Longrightarrow> d p = None"
  unfolding diff_19_def using img_sub_None [of a p b] by auto

lemma diff_1819_nan:
  "diff_1819 mp = Inr d \<Longrightarrow> isel mp 2 = Inr a \<Longrightarrow> isel mp 1 = Inr b \<Longrightarrow> isel mp 0 = Inr c \<Longrightarrow>
     a p = None \<or> b p = None \<or> c p = None \<Longrightarrow> d p = None"
  unfolding diff_1819_def
  using img_sub_None [of "img_half (img_add a b)" p c] img_half_None [of "img_add a b" p]
    img_add_None [of a p b]
  by auto

text \<open>
  C2. In the subtraction form (\<open>diff_18\<close>, \<open>diff_19\<close>) and in the averaging form
  (\<open>diff_1819\<close>, also on the SAR composites), a pixel at which any operand composite holds
  "no observation" holds "no observation" in the result.
\<close>

theorem diff_propagates_nan:
  "(\<forall>d a b. diff_18 mp = Inr d \<and> isel mp 1 = Inr a \<and> isel mp 0 = Inr b \<and>
        (a p = None \<or> b p = None) \<longrightarrow> d p = None) \<and>
   (\<forall>d a b. diff_19 mp = Inr d \<and> isel mp 2 = Inr a \<and> isel mp 0 = Inr b \<and>
        (a p = None \<or> b p = None) \<longrightarrow> d p = None) \<and>
   (\<forall>d a b c. diff_1819 mp = Inr d \<and> isel mp 2 = Inr a \<and> isel mp 1 = Inr b \<and>
        isel mp 0 = Inr c \<and> (a p = None \<or> b p = None \<or> c p = None) \<longrightarrow> d p = None) \<and>
   (\<forall>d a b c. diff_1819_vh_asc ds = Inr d \<and> isel (mpspy_vh_asc ds) 2 = Inr a \<and>
        isel (mpspy_vh_asc ds) 1 = Inr b \<and> isel (mpspy_vh_asc ds) 0 = Inr c \<and>
        (a p = None \<or> b p = None \<or> c p = None) \<longrightarrow> d p = None)"
proof (intro conjI allI impI)
  fix d a b
  assume "diff_18 mp = Inr d \<and> isel mp 1 = Inr a \<and> isel mp 0 = Inr b \<and> (a p = None \<or> b p = None)"
  then show "d p = None" using diff_18_nan by blast
next
  fix d a b
  assume "diff_19 mp = Inr d \<and> isel mp 2 = Inr a \<and> isel mp 0 = Inr b \<and> (a p = None \<or> b p = None)"
  then show "d p = None" using diff_19_nan by blast
next
  fix d a b c
  assume "diff_1819 mp = Inr d \<and> isel mp 2 = Inr a \<and> isel mp 1 = Inr b \<and>
        isel mp 0 = Inr c \<and> (a p = None \<or> b p = None \<or> c p = None)"
  then show "d p = None" using diff_1819_nan by blast
next
  fix d a b c
  assume "diff_1819_vh_asc ds = Inr d \<and> isel (mpspy_vh_asc ds) 2 = Inr a \<and>
        isel (mpspy_vh_asc ds) 1 = Inr b \<and> isel (mpspy_vh_asc ds) 0 = Inr c \<and>
        (a p = None \<or> b p = None \<or> c p = None)"
  then show "d p = None" using diff_1819_nan unfolding diff_1819_vh_asc_def by blast
qed

lemma isel_ex:
  "isel ex_mpspy 0 = Inr (\<lambda>p. Some (1/2))" "isel ex_mpspy 1 = Inr (\<lambda>p. None)"
  "isel ex_mpspy 2 = Inr (\<lambda>p. Some (1/4))"
  by (simp_all add: isel_def ex_mpspy_def)

lemma isel_ex_shifted:
  "isel ((2016, \<lambda>p. None) # ex_mpspy) 0 = Inr (\<lambda>p. None)"
  "isel ((2016, \<lambda>p. None) # ex_mpspy) 2 = Inr (\<lambda>p. None)"
  by (simp_all add: isel_def ex_mpspy_def)

lemma quantile_ex_s1_years: "quantile (grid ex_s1_years) (VH ex_s1_years) (1/20) = Some (- (45003 / 5))"
   "quantile (grid ex_s1_years) (VH ex_s1_years) (19/20) = Some (- 15)"
  by (simp_all add: quantile_def ex_s1_years_def all_values_def map_filter_simps)

lemma vh_asc_ex:
  "vh_asc ex_s1_years = [((2017, 7, 1), \<lambda>p. Some (-15)), ((2018, 7, 1), \<lambda>p. None),
                       ((2019, 7, 1), \<lambda>p. Some (-15))]"
  by (simp add: vh_asc_def vh_cond_def quantile_ex_s1_years da_where_def da_and_def binary_op_def unary_op_def
      map_filter_simps cell_ne_def cell_ge_def cell_le_def)
     (simp add: ex_s1_years_def map_filter_simps)

lemma mpspy_vh_asc_ex:
  "mpspy_vh_asc ex_s1_years = [(2017, \<lambda>p. Some (-15)), (2018, \<lambda>p. None), (2019, \<lambda>p. Some (-15))]"
  by (simp add: mpspy_vh_asc_def vh_asc_ex groupby_year_median_def groupby_year_def
      da_where_def time_season_eq_def binary_op_def map_filter_simps year_def season_of_def
      month_def median_time_def nanmedian_def)

lemma isel_ex_s1_years:
  "isel (mpspy_vh_asc ex_s1_years) 0 = Inr (\<lambda>p. Some (-15))"
  "isel (mpspy_vh_asc ex_s1_years) 1 = Inr (\<lambda>p. None)"
  "isel (mpspy_vh_asc ex_s1_years) 2 = Inr (\<lambda>p. Some (-15))"
  by (simp_all add: isel_def mpspy_vh_asc_ex)

theorem diff_propagates_nan_witness:
  "(\<exists>d. diff_18 ex_mpspy = Inr d \<and> d (0, 0) = None) \<and>
   (\<exists>d. diff_19 ((2016, \<lambda>p. None) # ex_mpspy) = Inr d \<and> d (0, 0) = None) \<and>
   (\<exists>d. diff_1819 ex_mpspy = Inr d \<and> d (0, 0) = None) \<and>
   (\<exists>d. diff_1819_vh_asc ex_s1_years = Inr d \<and> d (0, 0) = None)"
proof -
  obtain d1 where 1: "diff_18 ex_mpspy = Inr d1"
    by (simp add: diff_18_def isel_ex)
  obtain d2 where 2: "diff_19 ((2016, \<lambda>p. None) # ex_mpspy) = Inr d2"
    by (simp add: diff_19_def isel_ex_shifted)
  obtain d3 where 3: "diff_1819 ex_mpspy = Inr d3"
    by (simp add: diff_1819_def isel_ex)
  obtain d4 where 4: "diff_1819_vh_asc ex_s1_years = Inr d4"
    by (simp add: diff_1819_vh_asc_def diff_1819_def isel_ex_s1_years)
  note th = diff_propagates_nan [of ex_mpspy "(0, 0)" ex_s1_years]
  note th' = diff_propagates_nan [of "(2016, \<lambda>p. None) # ex_mpspy" "(0, 0)"]
  have "d1 (0, 0) = None"
    using th 1 isel_ex by blast
  moreover have "d2 (0, 0) = None"
    using th' 2 isel_ex_shifted by blast
  moreover have "d3 (0, 0) = None"
    using th 3 isel_ex by blast
  moreover have "d4 (0, 0) = None"
    using th 4 isel_ex_s1_years by blast
  ultimately show ?thesis using 1 2 3 4 by blast
qed

section \<open>Year indexing\<close>

lemma isel_error_iff:
  "isel mp i = Inl e \<longleftrightarrow> e = IndexError \<and> \<not> (- int (length mp) \<le> i \<and> i < int (length mp))"
  by (auto simp: isel_def)

lemma isel_Inr: "- int (length mp) \<le> i \<and> i < int (length mp) \<Longrightarrow> \<exists>c \<in> set mp. isel mp i = Inr (snd c)"
  by (auto simp: isel_def)

lemma isel_InrD: "isel mp i = Inr x \<Longrightarrow> - int (length mp) \<le> i \<and> i < int (length mp)"
  by (auto simp: isel_def split: if_splits)

lemma diff_18_error: "diff_18 mp = Inl e \<longleftrightarrow> e = IndexError \<and> length mp < 2"
  by (auto simp: diff_18_def isel_error_iff split: sum.splits dest: isel_InrD)

lemma diff_19_error: "diff_19 mp = Inl e \<longleftrightarrow> e = IndexError \<and> length mp < 3"
  by (auto simp: diff_19_def isel_error_iff split: sum.splits dest: isel_InrD)

lemma diff_1819_error: "diff_1819 mp = Inl e \<longleftrightarrow> e = IndexError \<and> length mp < 3"
  by (auto simp: diff_1819_def isel_error_iff split: sum.splits dest: isel_InrD)

text \<open>
  C7. Indexing the composites with an index outside the array (not below the length, or
  below minus the length) fails with IndexError and returns no raster; an index inside
  returns one of the composites. The differences fail with IndexError exactly when one
  of their indices 0, 1, 2 is outside the array; with no composite at all the baseline
  index 0 is outside and every difference fails.
\<close>

theorem out_of_range_index_error:
  "(\<not> (- int (length mp) \<le> i \<and> i < int (length mp)) \<longrightarrow> isel mp i = Inl IndexError) \<and>
   (- int (length mp) \<le> i \<and> i < int (length mp) \<longrightarrow> (\<exists>c \<in> set mp. isel mp i = Inr (snd c))) \<and>
   (mp = [] \<longrightarrow> diff_18 mp = Inl IndexError \<and> diff_19 mp = Inl IndexError \<and>
      diff_1819 mp = Inl IndexError) \<and>
   (diff_18 mp = Inl IndexError \<longleftrightarrow> length mp < 2) \<and>
   (diff_19 mp = Inl IndexError \<longleftrightarrow> length mp < 3) \<and>
   (diff_1819 mp = Inl IndexError \<longleftrightarrow> length mp < 3)"
  using isel_Inr [of mp i]
  by (simp add: isel_error_iff diff_18_error diff_19_error diff_1819_error)

theorem out_of_range_index_error_witness:
  "isel (take 2 ex_mpspy) 2 = Inl IndexError \<and> isel (take 2 ex_mpspy) (-3) = Inl IndexError \<and>
   diff_19 (take 2 ex_mpspy) = Inl IndexError \<and> diff_1819 (take 2 ex_mpspy) = Inl IndexError \<and>
   diff_18 [] = Inl IndexError \<and> diff_18 (take 2 ex_mpspy) \<noteq> Inl IndexError \<and>
   (\<exists>c \<in> set (take 2 ex_mpspy). isel (take 2 ex_mpspy) 1 = Inr (snd c))"
  using out_of_range_index_error [of "take 2 ex_mpspy" 2]
    out_of_range_index_error [of "take 2 ex_mpspy" "-3"]
    out_of_range_index_error [of "[]" 0]
    out_of_range_index_error [of "take 2 ex_mpspy" 1]
  by (simp add: ex_mpspy_def)

section \<open>Observation counts\<close>

lemma sum_time_unary_op:
  "sum_time (unary_op f da) p = length (filter (\<lambda>(t, img). f (img p)) da)"
proof (induction da)
  case Nil
  show ?case by (simp add: sum_time_def unary_op_def)
next
  case (Cons x xs)
  obtain t img where x: "x = (t, img)" by (cases x)
  have "sum_time (unary_op f (x # xs)) p = (if f (img p) then 1 else 0) + sum_time (unary_op f xs) p"
    by (simp add: sum_time_def unary_op_def x)
  then show ?case using Cons.IH x by simp
qed

lemma cell_gt_Some: "cell_gt c (Some x) \<longleftrightarrow> (\<exists>v. c = Some v \<and> x < v)"
  by (cases c) (simp_all add: cell_gt_def)

text \<open>
  C10. The per-pixel observation count is the number of timestamps at which the VH value
  of the pixel is a number strictly greater than the nodata value; a value equal to or
  below the nodata value, or NaN, is not counted.
\<close>

theorem count_strictly_above_nodata:
  "count ds p = length (filter (\<lambda>(t, img). \<exists>v. img p = Some v \<and> nodata ds < v) (VH ds))"
  by (simp add: count_def sum_time_unary_op cell_gt_Some)

theorem count_strictly_above_nodata_witness: "count ex_s1 (0, 0) = 2"
  by (simp add: count_strictly_above_nodata ex_s1_def)

section \<open>SAR validity mask\<close>

lemma cell_ne_Some: "cell_ne c (Some x) \<longleftrightarrow> (\<forall>v. c = Some v \<longrightarrow> v \<noteq> x)"
  by (cases c) (simp_all add: cell_ne_def)

lemma map_of_vh_cond:
  "map_of (vh_cond ds) t =
     map_option (\<lambda>ih p. \<exists>v lo hi. ih p = Some v \<and> v \<noteq> nodata ds \<and>
                    quantile (grid ds) (VH ds) (5/100) = Some lo \<and> lo \<le> v \<and>
                    quantile (grid ds) (VH ds) (95/100) = Some hi \<and> v \<le> hi)
       (map_of (VH ds) t)"
proof (cases "map_of (VH ds) t")
  case None
  then show ?thesis
    by (simp add: vh_cond_def da_and_def map_of_binary_op map_of_unary_op)
next
  case (Some ih)
  have "(cell_ne (ih p) (Some (nodata ds)) \<and> cell_ge (ih p) (quantile (grid ds) (VH ds) (5/100)))
           \<and> cell_le (ih p) (quantile (grid ds) (VH ds) (95/100))
        \<longleftrightarrow> (\<exists>v lo hi. ih p = Some v \<and> v \<noteq> nodata ds \<and>
                    quantile (grid ds) (VH ds) (5/100) = Some lo \<and> lo \<le> v \<and>
                    quantile (grid ds) (VH ds) (95/100) = Some hi \<and> v \<le> hi)" for p
    by (cases "ih p"; cases "quantile (grid ds) (VH ds) (5/100)";
        cases "quantile (grid ds) (VH ds) (95/100)")
       (simp_all add: cell_ne_def cell_ge_def cell_le_def)
  then show ?thesis using Some
    by (simp add: vh_cond_def da_and_def map_of_binary_op map_of_unary_op)
qed

text \<open>
  C9. At a timestamp of both bands, the filtered VV/VH ratio keeps its value exactly
  where the VH value of the same pixel and timestamp is a number different from the
  nodata value that lies between the 5 % and the 95 % quantile of the VH band, and is
  "no observation" elsewhere. The condition does not read the ratio: it is the same for
  any other ratio band.
\<close>

theorem vvvh_validity_from_vh:
  assumes "map_of (VVVH ds) t = Some iv" and "map_of (VH ds) t = Some ih"
  shows "value_at (vvvh_asc ds) t p =
           Some (if \<exists>v lo hi. ih p = Some v \<and> v \<noteq> nodata ds \<and>
                    quantile (grid ds) (VH ds) (5/100) = Some lo \<and> lo \<le> v \<and>
                    quantile (grid ds) (VH ds) (95/100) = Some hi \<and> v \<le> hi
                 then iv p else None) \<and>
         vh_cond (ds\<lparr>VVVH := other\<rparr>) = vh_cond ds"
proof
  show "value_at (vvvh_asc ds) t p =
           Some (if \<exists>v lo hi. ih p = Some v \<and> v \<noteq> nodata ds \<and>
                    quantile (grid ds) (VH ds) (5/100) = Some lo \<and> lo \<le> v \<and>
                    quantile (grid ds) (VH ds) (95/100) = Some hi \<and> v \<le> hi
                 then iv p else None)"
    using assms
    by (simp add: value_at_def vvvh_asc_def da_where_def map_of_binary_op map_of_vh_cond)
  show "vh_cond (ds\<lparr>VVVH := other\<rparr>) = vh_cond ds"
    by (simp add: vh_cond_def)
qed

theorem vvvh_validity_from_vh_witness:
  "value_at (vvvh_asc ex_s1) (2017, 6, 13) (0, 0) = Some (Some (3/4)) \<and>
   value_at (vvvh_asc ex_s1) (2017, 6, 1) (0, 0) = Some None \<and>
   value_at (vvvh_asc ex_s1) (2017, 6, 25) (0, 0) = Some None"
proof -
  have q05: "quantile (grid ex_s1) (VH ex_s1) (1/20) = Some (- (199997 / 20))"
    by (simp add: quantile_def ex_s1_def all_values_def map_filter_simps)
  have q95: "quantile (grid ex_s1) (VH ex_s1) (19/20) = Some (- (283 / 20))"
    by (simp add: quantile_def ex_s1_def all_values_def map_filter_simps)
  have vv: "map_of (VVVH ex_s1) (2017, 6, 13) = Some (\<lambda>p. Some (3/4))"
       "map_of (VVVH ex_s1) (2017, 6, 1) = Some (\<lambda>p. Some (1/2))"
       "map_of (VVVH ex_s1) (2017, 6, 25) = Some (\<lambda>p. Some (2/3))"
    by (simp_all add: ex_s1_def)
  have vh: "map_of (VH ex_s1) (2017, 6, 13) = Some (\<lambda>p. Some (-15))"
       "map_of (VH ex_s1) (2017, 6, 1) = Some (\<lambda>p. Some (-9999))"
       "map_of (VH ex_s1) (2017, 6, 25) = Some (\<lambda>p. Some (-14))"
    by (simp_all add: ex_s1_def)
  have n: "nodata ex_s1 = -9999" by (simp add: ex_s1_def)
  show ?thesis
    using vvvh_validity_from_vh [OF vv(1) vh(1), of "(0, 0)"]
      vvvh_validity_from_vh [OF vv(2) vh(2), of "(0, 0)"]
      vvvh_validity_from_vh [OF vv(3) vh(3), of "(0, 0)"]
    by (simp add: q05 q95 n)
qed

section \<open>Bit masks\<close>

lemma fold_or_acc:
  "fold (\<lambda>b m. m OR 2 ^ b) bs (a :: int) = a OR fold (\<lambda>b m. m OR 2 ^ b) bs 0"
proof (induction bs arbitrary: a)
  case Nil
  show ?case by simp
next
  case (Cons b bs)
  have "fold (\<lambda>b m. m OR 2 ^ b) (b # bs) a = (a OR 2 ^ b) OR fold (\<lambda>b m. m OR 2 ^ b) bs 0"
    using Cons.IH [of "a OR 2 ^ b"] by simp
  also have "\<dots> = a OR (2 ^ b OR fold (\<lambda>b m. m OR 2 ^ b) bs 0)"
    by (simp add: or.assoc)
  also have "2 ^ b OR fold (\<lambda>b m. m OR 2 ^ b) bs 0 = fold (\<lambda>b m. m OR 2 ^ b) (b # bs) (0 :: int)"
    using Cons.IH [of "2 ^ b"] by simp
  finally show ?case .
qed

lemma fold_set_value_at_index:
  "fold (\<lambda>bit m. set_value_at_index m bit True) bs msk = msk OR field_mask (Bits bs)"
  using fold_or_acc [of bs msk] by (simp add: set_value_at_index_def)

lemma bit_field_mask_Bits: "bit (field_mask (Bits bs)) i \<longleftrightarrow> i \<in> set bs"
proof (induction bs)
  case Nil
  show ?case by simp
next
  case (Cons b bs)
  have "field_mask (Bits (b # bs)) = 2 ^ b OR field_mask (Bits bs)"
    using fold_or_acc [of bs "2 ^ b"] by simp
  then show ?case using Cons.IH by (auto simp: bit_or_iff bit_exp_iff)
qed

lemma bit_field_mask_Bit: "bit (field_mask (Bit b)) i \<longleftrightarrow> i = b"
  by (auto simp: bit_exp_iff)

lemma and_eq_0_iff: "(a :: int) AND b = 0 \<longleftrightarrow> (\<forall>n. \<not> (bit a n \<and> bit b n))"
  by (auto simp: bit_eq_iff bit_and_iff)

lemma and_not_eq_0_iff: "(a :: int) AND NOT b = 0 \<longleftrightarrow> (\<forall>n. bit a n \<longrightarrow> bit b n)"
  by (auto simp: bit_eq_iff bit_and_iff bit_not_iff)

lemma mask_value_step:
  fixes q msk val fm fv :: int
  assumes "msk AND fm = 0" and "val AND NOT msk = 0" and "fv AND NOT fm = 0"
  shows "(q AND (msk OR fm) = val OR fv) \<longleftrightarrow> (q AND msk = val \<and> q AND fm = fv)"
proof -
  have d: "\<And>n. \<not> (bit msk n \<and> bit fm n)" using assms(1) by (simp add: and_eq_0_iff)
  have v: "\<And>n. bit val n \<Longrightarrow> bit msk n" using assms(2) by (simp add: and_not_eq_0_iff)
  have f: "\<And>n. bit fv n \<Longrightarrow> bit fm n" using assms(3) by (simp add: and_not_eq_0_iff)
  show ?thesis
  proof
    assume h: "q AND (msk OR fm) = val OR fv"
    then have e: "\<And>n. (bit q n \<and> (bit msk n \<or> bit fm n)) = (bit val n \<or> bit fv n)"
      by (metis bit_and_iff bit_or_iff)
    have "q AND msk = val"
      by (rule bit_eqI) (use e d v f in \<open>auto simp: bit_and_iff\<close>)
    moreover have "q AND fm = fv"
      by (rule bit_eqI) (use e d v f in \<open>auto simp: bit_and_iff\<close>)
    ultimately show "q AND msk = val \<and> q AND fm = fv" by simp
  next
    assume h: "q AND msk = val \<and> q AND fm = fv"
    then show "q AND (msk OR fm) = val OR fv"
      by (metis bit.conj_disj_distrib)
  qed
qed

lemma field_value_within:
  "fits fb k \<Longrightarrow> field_value fb k AND NOT (field_mask fb) = 0"
  by (cases fb) (auto simp: and_not_eq_0_iff bit_exp_iff)

lemma field_matches_iff:
  assumes "fits fb k" and "fb \<noteq> Bits []"
  shows "(q AND field_mask fb = field_value fb k) \<longleftrightarrow> field_matches fb q k"
proof (cases fb)
  case (Bit b)
  have "(q AND 2 ^ b = (if k \<noteq> 0 then 2 ^ b else 0)) \<longleftrightarrow> (bit q b \<longleftrightarrow> k \<noteq> 0)"
    by (auto simp: bit_eq_iff [where ?'a = int] bit_and_iff bit_exp_iff)
  then show ?thesis using Bit by simp
next
  case (Bits bs)
  define s where "s = Min (set bs)"
  define x where "x = q AND field_mask (Bits bs)"
  have ne: "bs \<noteq> []" using assms(2) Bits by simp
  have low: "s \<le> i" if "bit x i" for i
  proof -
    have "i \<in> set bs"
      using that by (simp add: x_def bit_and_iff bit_field_mask_Bits del: field_mask.simps)
    then show ?thesis unfolding s_def by simp
  qed
  have id: "push_bit s (drop_bit s x) = x"
    by (rule bit_eqI) (use low in \<open>auto simp: bit_push_bit_iff bit_drop_bit_eq\<close>)
  have "(x = push_bit s k) \<longleftrightarrow> (drop_bit s x = k)"
  proof
    assume "x = push_bit s k"
    then show "drop_bit s x = k" by (simp add: drop_bit_push_bit)
  next
    assume "drop_bit s x = k"
    then show "x = push_bit s k" using id by simp
  qed
  then show ?thesis using Bits by (simp add: s_def x_def)
qed

lemma predicate_holds_unique:
  assumes "fd n = Some d"
    and "filter (\<lambda>(bit_val, val_ref). val_ref = r) (flag_values d) = [(k, r')]"
  shows "predicate_holds fd q (n, r) \<longleftrightarrow> field_matches (bits d) q k"
proof -
  have mem: "(k', r'') \<in> set (flag_values d) \<and> r'' = r \<longleftrightarrow> k' = k \<and> r'' = r' " for k' r''
  proof -
    have "(k', r'') \<in> set (filter (\<lambda>(bit_val, val_ref). val_ref = r) (flag_values d))
            \<longleftrightarrow> (k', r'') \<in> set (flag_values d) \<and> r'' = r"
      by auto
    then show ?thesis using assms(2) by auto
  qed
  have r: "r' = r" and k: "(k, r) \<in> set (flag_values d)" using mem [of k r'] by blast+
  have u: "k' = k" if "(k', r) \<in> set (flag_values d)" for k'
    using that mem [of k' r] by simp
  show ?thesis
  proof
    assume "predicate_holds fd q (n, r)"
    then obtain k' where "(k', r) \<in> set (flag_values d)" "field_matches (bits d) q k'"
      using assms(1) by (auto simp: predicate_holds_def)
    then show "field_matches (bits d) q k" using u by blast
  next
    assume "field_matches (bits d) q k"
    then show "predicate_holds fd q (n, r)"
      using assms(1) k by (auto simp: predicate_holds_def)
  qed
qed

lemma create_mask_value_Cons_Inr:
  assumes "create_mask_value fd ((n, r) # fs) msk val = Inr res"
  obtains d k r' where "fd n = Some d"
    and "filter (\<lambda>(bit_val, val_ref). val_ref = r) (flag_values d) = [(k, r')]"
    and "bits d \<noteq> Bits []"
    and "create_mask_value fd fs
           (case bits d of Bits bs \<Rightarrow> fold (\<lambda>bit m. set_value_at_index m bit True) bs msk
                         | Bit b \<Rightarrow> set_value_at_index msk b True)
           (case bits d of Bits bs \<Rightarrow> val OR push_bit (fold min (tl bs) (hd bs)) k
                         | Bit b \<Rightarrow> set_value_at_index val b (k \<noteq> 0)) = Inr res"
proof -
  obtain d where d: "fd n = Some d"
    using assms by (cases "fd n") simp_all
  obtain k r' where k: "filter (\<lambda>(bit_val, val_ref). val_ref = r) (flag_values d) = [(k, r')]"
    using assms d by (auto split: list.splits)
  show ?thesis
  proof (cases "bits d")
    case (Bit b)
    then show ?thesis using assms d k that [of d k r'] by simp
  next
    case (Bits bs)
    then show ?thesis using assms d k that [of d k r'] by (cases bs) simp_all
  qed
qed

lemma new_mask_eq:
  "(case fb of Bits bs \<Rightarrow> fold (\<lambda>bit m. set_value_at_index m bit True) bs msk
             | Bit b \<Rightarrow> set_value_at_index msk b True) = msk OR field_mask fb"
proof (cases fb)
  case (Bit b)
  then show ?thesis by (simp add: set_value_at_index_def)
next
  case (Bits bs)
  then show ?thesis by (simp add: fold_set_value_at_index del: field_mask.simps(2))
qed

lemma new_value_eq:
  assumes "fb \<noteq> Bits []" and "val AND NOT msk = 0" and "msk AND field_mask fb = 0"
  shows "(case fb of Bits bs \<Rightarrow> val OR push_bit (fold min (tl bs) (hd bs)) k
             | Bit b \<Rightarrow> set_value_at_index val b (k \<noteq> 0)) = val OR field_value fb k"
proof (cases fb)
  case (Bit b)
  have "\<not> bit msk b" using assms(3) Bit by (auto simp: and_eq_0_iff bit_exp_iff)
  then have nb: "\<not> bit val b" using assms(2) by (auto simp: and_not_eq_0_iff)
  have "val AND NOT (2 ^ b) = val"
    by (rule bit_eqI) (use nb in \<open>auto simp: bit_and_iff bit_not_iff bit_exp_iff\<close>)
  then show ?thesis using Bit by (simp add: set_value_at_index_def)
next
  case (Bits bs)
  then obtain b bs' where bs: "bs = b # bs'" using assms(1) by (cases bs) auto
  have "fold min bs' b = Min (set (b # bs'))" by (simp only: Min.set_eq_fold)
  then show ?thesis using Bits bs by simp
qed

lemma create_mask_value_correct:
  assumes "create_mask_value fd fs msk val = Inr (M, V)" and "wf_flags fd fs"
    and "val AND NOT msk = 0"
    and "\<And>f d. f \<in> set fs \<Longrightarrow> fd (fst f) = Some d \<Longrightarrow> msk AND field_mask (bits d) = 0"
  shows "(q AND M = V) \<longleftrightarrow> (q AND msk = val \<and> (\<forall>f \<in> set fs. predicate_holds fd q f))"
  using assms
proof (induction fs arbitrary: msk val)
  case Nil
  then show ?case by simp
next
  case (Cons f fs)
  obtain n r where f: "f = (n, r)" by (cases f)
  from Cons.prems(1) [unfolded f]
  obtain d k r' where d: "fd n = Some d"
    and k: "filter (\<lambda>(bit_val, val_ref). val_ref = r) (flag_values d) = [(k, r')]"
    and ne: "bits d \<noteq> Bits []"
    and rest: "create_mask_value fd fs
           (case bits d of Bits bs \<Rightarrow> fold (\<lambda>bit m. set_value_at_index m bit True) bs msk
                         | Bit b \<Rightarrow> set_value_at_index msk b True)
           (case bits d of Bits bs \<Rightarrow> val OR push_bit (fold min (tl bs) (hd bs)) k
                         | Bit b \<Rightarrow> set_value_at_index val b (k \<noteq> 0)) = Inr (M, V)"
    by (rule create_mask_value_Cons_Inr)
  define fm where "fm = field_mask (bits d)"
  define fv where "fv = field_value (bits d) k"
  have disj: "msk AND fm = 0"
    using Cons.prems(4) [of f d] d f by (simp add: fm_def)
  have kin: "(k, r') \<in> set (flag_values d)"
    using k by (metis filter_is_subset list.set_intros(1) subsetD)
  have fit: "fits (bits d) k"
    using Cons.prems(2) d f kin by auto
  have within: "fv AND NOT fm = 0"
    using fit by (simp add: fm_def fv_def field_value_within)
  have rest': "create_mask_value fd fs (msk OR fm) (val OR fv) = Inr (M, V)"
    using rest new_mask_eq [where fb = "bits d" and msk = msk]
      new_value_eq [OF ne Cons.prems(3), where k = k] disj
    by (simp add: fm_def fv_def)
  have wf': "wf_flags fd fs" using Cons.prems(2) by simp
  have inv': "(val OR fv) AND NOT (msk OR fm) = 0"
  proof -
    have "\<forall>n. bit (val OR fv) n \<longrightarrow> bit (msk OR fm) n"
      using Cons.prems(3) within by (auto simp: and_not_eq_0_iff bit_or_iff)
    then show ?thesis by (simp only: and_not_eq_0_iff)
  qed
  have disj': "(msk OR fm) AND field_mask (bits d') = 0"
    if "f' \<in> set fs" "fd (fst f') = Some d'" for f' d'
  proof -
    have 1: "msk AND field_mask (bits d') = 0"
      using Cons.prems(4) [of f' d'] that by simp
    have 2: "fm AND field_mask (bits d') = 0"
      using Cons.prems(2) d f that by (auto simp: fm_def)
    have "\<forall>n. \<not> (bit (msk OR fm) n \<and> bit (field_mask (bits d')) n)"
      using 1 2 by (auto simp: and_eq_0_iff bit_or_iff)
    then show ?thesis using and_eq_0_iff by blast
  qed
  have ih: "(q AND M = V) \<longleftrightarrow> (q AND (msk OR fm) = val OR fv \<and> (\<forall>f \<in> set fs. predicate_holds fd q f))"
  proof (rule Cons.IH [OF rest' wf' inv'])
    fix f' d' assume "f' \<in> set fs" "fd (fst f') = Some d'"
    then show "(msk OR fm) AND field_mask (bits d') = 0" by (rule disj')
  qed
  have step: "(q AND (msk OR fm) = val OR fv) \<longleftrightarrow> (q AND msk = val \<and> q AND fm = fv)"
    by (rule mask_value_step [OF disj Cons.prems(3) within])
  have fld: "(q AND fm = fv) \<longleftrightarrow> predicate_holds fd q f"
    using field_matches_iff [OF fit ne, of q] predicate_holds_unique [where fd = fd and n = n and d = d and r = r and k = k and r' = r' and q = q] d k
    by (simp add: fm_def fv_def f)
  show ?case using ih step fld by auto
qed

text \<open>
  C4. On a well-formed layout, the mask that \<open>make_mask\<close> returns is valid at a pixel and
  timestamp if and only if every predicate of the set holds for the flags of that pixel;
  a quality value for which one required predicate fails is marked invalid.
\<close>

theorem make_mask_valid_iff:
  assumes "wf_flags fd fs" and "make_mask fd qa fs = Inr m" and "map_of qa t = Some img"
  shows "value_at m t p = Some (\<forall>f \<in> set fs. predicate_holds fd (img p) f) \<and>
         (\<forall>qa' m' img'. make_mask fd qa' fs = Inr m' \<and> map_of qa' t = Some img' \<and>
              (\<exists>f \<in> set fs. \<not> predicate_holds fd (img' p) f)
            \<longrightarrow> value_at m' t p = Some False)"
proof -
  have main: "value_at m' t p = Some (\<forall>f \<in> set fs. predicate_holds fd (img' p) f)"
    if mk: "make_mask fd qa' fs = Inr m'" and img: "map_of qa' t = Some img'" for qa' m' img'
  proof -
    obtain M V where mv: "create_mask_value fd fs 0 0 = Inr (M, V)"
      and m': "m' = unary_op (\<lambda>q. q AND M = V) qa'"
      using mk by (auto simp: make_mask_def split: sum.splits)
    have "(img' p AND M = V) \<longleftrightarrow> (img' p AND 0 = 0 \<and> (\<forall>f \<in> set fs. predicate_holds fd (img' p) f))"
      by (rule create_mask_value_correct [OF mv assms(1)]) simp_all
    then show ?thesis
      using img by (simp add: m' value_at_def map_of_unary_op)
  qed
  show ?thesis using main [OF assms(2,3)] main by auto
qed

lemma create_mask_value_ex: "create_mask_value ex_flags_def flags 0 0 = Inr (1823, 0)"
  by code_simp

lemma wf_flags_ex: "wf_flags ex_flags_def flags"
  by code_simp

theorem make_mask_valid_iff_witness:
  "\<exists>m. make_mask ex_flags_def ex_qa flags = Inr m \<and>
       value_at m (2017, 6, 1) (0, 0) = Some True \<and>
       value_at m (2017, 6, 1) (0, 1) = Some False \<and>
       value_at m (2017, 6, 1) (1, 1) = Some False"
proof -
  obtain m where mk: "make_mask ex_flags_def ex_qa flags = Inr m"
    by (simp add: make_mask_def create_mask_value_ex)
  have img: "map_of ex_qa (2017, 6, 1) =
      Some (\<lambda>p. if p = (0, 0) then 0 else if p = (0, 1) then 8 else 2)"
    by (simp add: ex_qa_def)
  have h0: "(\<forall>f \<in> set flags. predicate_holds ex_flags_def 0 f) = True"
    by code_simp
  have h8: "(\<forall>f \<in> set flags. predicate_holds ex_flags_def 8 f) = False"
    by code_simp
  have h2: "(\<forall>f \<in> set flags. predicate_holds ex_flags_def 2 f) = False"
    by code_simp
  show ?thesis
    using make_mask_valid_iff [OF wf_flags_ex mk img, of "(0, 0)"]
      make_mask_valid_iff [OF wf_flags_ex mk img, of "(0, 1)"]
      make_mask_valid_iff [OF wf_flags_ex mk img, of "(1, 1)"] mk h0 h8 h2
    by simp
qed

section \<open>Index computation and the stages of the notebook\<close>

lemma and_then_Inr:
  "and_then m f = Inr y \<longleftrightarrow> (\<exists>x. m = Inr x \<and> f x = Inr y)"
  by (cases m) (simp_all add: and_then_def)

lemma computeIndex_Inr:
  assumes "ds ''nir'' = Some n" and "ds ''red'' = Some r"
  shows "computeIndex kern ds ''NDVI'' = Inr (binary_op normalized_difference n r)"
    and "computeIndex kern ds ''kNDVI'' =
           Inr (binary_op (\<lambda>a b. map_option kern (normalized_difference a b)) n r)"
  using assms by (simp_all add: computeIndex_def)

lemma optical_NDVI_kNDVI:
  assumes "ds ''nir'' = Some n" and "ds ''red'' = Some r"
  shows "optical kern ds [''NDVI'', ''kNDVI''] =
     Inr (ds(''NDVI'' \<mapsto> binary_op normalized_difference n r,
             ''kNDVI'' \<mapsto> binary_op (\<lambda>a b. map_option kern (normalized_difference a b)) n r))"
proof -
  have 1: "computeIndex kern ds ''NDVI'' = Inr (binary_op normalized_difference n r)"
    using assms by (rule computeIndex_Inr)
  have 2: "computeIndex kern (ds(''NDVI'' \<mapsto> binary_op normalized_difference n r)) ''kNDVI'' =
           Inr (binary_op (\<lambda>a b. map_option kern (normalized_difference a b)) n r)"
    by (rule computeIndex_Inr) (simp_all add: assms)
  show ?thesis by (simp add: 1 2)
qed

lemma optical_frame:
  "optical kern ds idx = Inr ds' \<Longrightarrow> v \<notin> set idx \<Longrightarrow> ds' v = ds v"
proof (induction idx arbitrary: ds)
  case Nil
  then show ?case by simp
next
  case (Cons i idx)
  then obtain a where a: "computeIndex kern ds i = Inr a"
    and r: "optical kern (ds(i \<mapsto> a)) idx = Inr ds'"
    by (auto split: sum.splits)
  have "ds' v = (ds(i \<mapsto> a)) v" using Cons.IH [OF r] Cons.prems(2) by simp
  then show ?case using Cons.prems(2) by simp
qed

lemma value_at_binary_op:
  "value_at (binary_op f a b) t p =
     (case (value_at a t p, value_at b t p) of
        (Some x, Some y) \<Rightarrow> Some (f x y)
      | _ \<Rightarrow> None)"
  by (simp add: value_at_def map_of_binary_op split: option.splits)

lemma nanmedian_skips_None: "nanmedian (None # cs) = nanmedian cs"
  by (rule nanmedian_cong) (simp add: map_filter_simps)

text \<open>
  C6. Where both input bands are zero, the index computation does not fail and the NDVI
  and the kNDVI it stores hold "no observation" at that pixel and timestamp: no number,
  and the marker that the seasonal median skips.
\<close>

theorem index_of_zero_bands:
  assumes "ds ''nir'' = Some n" and "ds ''red'' = Some r"
    and "value_at n t p = Some (Some 0)" and "value_at r t p = Some (Some 0)"
  shows "\<exists>ds' nd knd. optical kern ds [''NDVI'', ''kNDVI''] = Inr ds' \<and>
           ds' ''NDVI'' = Some nd \<and> ds' ''kNDVI'' = Some knd \<and>
           value_at nd t p = Some None \<and> value_at knd t p = Some None \<and>
           (\<forall>cs. nanmedian (the (value_at nd t p) # cs) = nanmedian cs)"
proof -
  define nd where "nd = binary_op normalized_difference n r"
  define knd where "knd = binary_op (\<lambda>a b. map_option kern (normalized_difference a b)) n r"
  have o: "optical kern ds [''NDVI'', ''kNDVI''] = Inr (ds(''NDVI'' \<mapsto> nd, ''kNDVI'' \<mapsto> knd))"
    unfolding nd_def knd_def using assms(1,2) by (rule optical_NDVI_kNDVI)
  have z: "normalized_difference (Some 0) (Some 0) = None"
    by (simp add: normalized_difference_def)
  have 1: "value_at nd t p = Some None"
    using assms(3,4) z by (simp add: nd_def value_at_binary_op)
  have 2: "value_at knd t p = Some None"
    using assms(3,4) z by (simp add: knd_def value_at_binary_op)
  have 3: "\<forall>cs. nanmedian (the (value_at nd t p) # cs) = nanmedian cs"
    using 1 by (simp add: nanmedian_skips_None)
  show ?thesis using o 1 2 3 by simp
qed

theorem index_of_zero_bands_witness:
  "\<exists>ds' nd knd. optical tanh ex_masked [''NDVI'', ''kNDVI''] = Inr ds' \<and>
           ds' ''NDVI'' = Some nd \<and> ds' ''kNDVI'' = Some knd \<and>
           value_at nd (2017, 6, 1) (0, 0) = Some None \<and>
           value_at knd (2017, 6, 1) (0, 0) = Some None"
proof -
  have n: "ex_masked ''nir'' = Some [((2017, 6, 1), \<lambda>p. Some 0), ((2017, 7, 1), \<lambda>p. Some 3)]"
    and r: "ex_masked ''red'' = Some [((2017, 6, 1), \<lambda>p. Some 0), ((2017, 7, 1), \<lambda>p. Some 1)]"
    by (simp_all add: ex_masked_def)
  show ?thesis
    using index_of_zero_bands [OF n r, of "(2017, 6, 1)" "(0, 0)" tanh]
    by (simp add: value_at_def) blast
qed

text \<open>
  C5 (amended). Masking, merge and aggregation, and differencing bind new variables and
  leave every other variable of the notebook, their inputs among them, as it was. Index
  computation is called with \<open>inplace=True\<close>: it binds no new variable and changes the
  two masked datasets it is applied to, which gain the variables NDVI and kNDVI; every
  other variable of these datasets, and every other variable of the notebook, holds
  what it held before.
\<close>

theorem stages_frame:
  "(stage_mask st = Inr st' \<longrightarrow>
      (\<forall>n. n \<notin> {''mask_s2'', ''mask_l8'', ''s2'', ''l8''} \<longrightarrow> st' n = st n)) \<and>
   (stage_aggregate st = Inr st' \<longrightarrow>
      (\<forall>n. n \<notin> {''s2_ind'', ''l8_ind'', ''s2_l8_ind'', ''s2_l8_ind_spy'', ''mpspy''}
           \<longrightarrow> st' n = st n)) \<and>
   (stage_diff st = Inr st' \<longrightarrow>
      (\<forall>n. n \<notin> {''diff_18'', ''diff_19'', ''diff_1819''} \<longrightarrow> st' n = st n)) \<and>
   (stage_index kern st = Inr st' \<longrightarrow>
      (\<forall>n. n \<notin> {''s2'', ''l8''} \<longrightarrow> st' n = st n) \<and>
      (\<forall>n \<in> {''s2'', ''l8''}. \<exists>a a'. st n = Some (Dataset a) \<and> st' n = Some (Dataset a') \<and>
          (\<forall>v. v \<notin> {''NDVI'', ''kNDVI''} \<longrightarrow> a' v = a v) \<and>
          a' ''NDVI'' \<noteq> None \<and> a' ''kNDVI'' \<noteq> None))"
proof (intro conjI impI)
  assume "stage_mask st = Inr st'"
  then show "\<forall>n. n \<notin> {''mask_s2'', ''mask_l8'', ''s2'', ''l8''} \<longrightarrow> st' n = st n"
    by (auto simp: stage_mask_def and_then_Inr)
next
  assume "stage_aggregate st = Inr st'"
  then show "\<forall>n. n \<notin> {''s2_ind'', ''l8_ind'', ''s2_l8_ind'', ''s2_l8_ind_spy'', ''mpspy''}
           \<longrightarrow> st' n = st n"
    by (auto simp: stage_aggregate_def and_then_Inr)
next
  assume "stage_diff st = Inr st'"
  then show "\<forall>n. n \<notin> {''diff_18'', ''diff_19'', ''diff_1819''} \<longrightarrow> st' n = st n"
    by (auto simp: stage_diff_def and_then_Inr)
next
  assume h: "stage_index kern st = Inr st'"
  then obtain a a' b b' where a: "get_dataset st ''s2'' = Inr a"
    and a': "optical kern a [''NDVI'', ''kNDVI''] = Inr a'"
    and b: "get_dataset (st(''s2'' \<mapsto> Dataset a')) ''l8'' = Inr b"
    and b': "optical kern b [''NDVI'', ''kNDVI''] = Inr b'"
    and st': "st' = st(''s2'' \<mapsto> Dataset a', ''l8'' \<mapsto> Dataset b')"
    by (auto simp: stage_index_def and_then_Inr)
  show "\<forall>n. n \<notin> {''s2'', ''l8''} \<longrightarrow> st' n = st n"
    by (simp add: st')
  have sa: "st ''s2'' = Some (Dataset a)"
    using a by (auto simp: get_dataset_def split: option.splits obj.splits)
  have sb: "st ''l8'' = Some (Dataset b)"
    using b by (auto simp: get_dataset_def split: option.splits obj.splits if_splits)
  have new: "d' ''NDVI'' \<noteq> None \<and> d' ''kNDVI'' \<noteq> None"
    if "optical kern d [''NDVI'', ''kNDVI''] = Inr d'" for d d'
    using that by (auto split: sum.splits)
  have old: "\<forall>v. v \<notin> {''NDVI'', ''kNDVI''} \<longrightarrow> d' v = d v"
    if "optical kern d [''NDVI'', ''kNDVI''] = Inr d'" for d d'
    using optical_frame [OF that] by simp
  show "\<forall>n \<in> {''s2'', ''l8''}. \<exists>a a'. st n = Some (Dataset a) \<and> st' n = Some (Dataset a') \<and>
          (\<forall>v. v \<notin> {''NDVI'', ''kNDVI''} \<longrightarrow> a' v = a v) \<and>
          a' ''NDVI'' \<noteq> None \<and> a' ''kNDVI'' \<noteq> None"
    using sa sb new [OF a'] new [OF b'] old [OF a'] old [OF b'] by (simp add: st')
qed

lemma stage_index_ex:
  "stage_index tanh ex_store =
     Inr (ex_store(''s2'' \<mapsto> Dataset (ex_masked(
             ''NDVI'' \<mapsto> binary_op normalized_difference (the (ex_masked ''nir'')) (the (ex_masked ''red'')),
             ''kNDVI'' \<mapsto> binary_op (\<lambda>a b. map_option tanh (normalized_difference a b))
                           (the (ex_masked ''nir'')) (the (ex_masked ''red'')))),
          ''l8'' \<mapsto> Dataset (ex_masked(
             ''NDVI'' \<mapsto> binary_op normalized_difference (the (ex_masked ''nir'')) (the (ex_masked ''red'')),
             ''kNDVI'' \<mapsto> binary_op (\<lambda>a b. map_option tanh (normalized_difference a b))
                           (the (ex_masked ''nir'')) (the (ex_masked ''red''))))))"
proof -
  have o: "optical tanh ex_masked [''NDVI'', ''kNDVI''] =
     Inr (ex_masked(
             ''NDVI'' \<mapsto> binary_op normalized_difference (the (ex_masked ''nir'')) (the (ex_masked ''red'')),
             ''kNDVI'' \<mapsto> binary_op (\<lambda>a b. map_option tanh (normalized_difference a b))
                           (the (ex_masked ''nir'')) (the (ex_masked ''red''))))"
    by (rule optical_NDVI_kNDVI) (simp_all add: ex_masked_def)
  have g: "get_dataset ex_store ''s2'' = Inr ex_masked"
    "\<And>x. get_dataset (ex_store(''s2'' \<mapsto> x)) ''l8'' = Inr ex_masked"
    by (simp_all add: get_dataset_def ex_store_def)
  show ?thesis
    by (simp add: stage_index_def and_then_def g o del: optical.simps)
qed

text \<open>
  After the index stage the variable \<open>s2\<close> is no longer bound to the dataset it was bound
  to before: the stage added NDVI and kNDVI to it.
\<close>

theorem index_stage_mutates_counterexample:
  "\<not> isl (stage_index tanh ex_store) \<and>
   projr (stage_index tanh ex_store) ''s2'' \<noteq> ex_store ''s2''"
proof -
  have "ex_masked ''NDVI'' = None" by (simp add: ex_masked_def)
  then have ne: "ex_masked(''NDVI'' \<mapsto> x, ''kNDVI'' \<mapsto> y) \<noteq> ex_masked" for x y
  proof -
    assume n: "ex_masked ''NDVI'' = None"
    have "(ex_masked(''NDVI'' \<mapsto> x, ''kNDVI'' \<mapsto> y)) ''NDVI'' = Some x" by simp
    then show ?thesis using n by (metis option.distinct(1))
  qed
  have "ex_store ''s2'' = Some (Dataset ex_masked)" by (simp add: ex_store_def)
  then show ?thesis
    using ne by (simp add: stage_index_ex)
qed

lemma stage_mask_ex: "\<exists>s1. stage_mask ex_loaded_store = Inr s1"
proof -
  obtain m where m: "make_mask ex_flags_def ex_qa flags = Inr m"
    by (simp add: make_mask_def create_mask_value_ex)
  have g: "get_loaded ex_loaded_store ''ds_s2'' = Inr ex_ds"
     "get_loaded ex_loaded_store ''ds_l8'' = Inr ex_ds"
    by (simp_all add: get_loaded_def ex_loaded_store_def)
  have e: "qa_flags_def ex_ds = ex_flags_def" "pixel_qa ex_ds = ex_qa"
    by (simp_all add: ex_ds_def)
  show ?thesis
    by (simp add: stage_mask_def and_then_def g e m)
qed

lemma stage_aggregate_ex: "\<exists>s2. stage_aggregate ex_index_store = Inr s2"
proof -
  have g: "get_dataset ex_index_store ''s2'' = Inr [''NDVI'' \<mapsto> ex_ind]"
     "get_dataset ex_index_store ''l8'' = Inr [''NDVI'' \<mapsto> []]"
    by (simp_all add: get_dataset_def ex_index_store_def)
  have v: "get_var [''NDVI'' \<mapsto> ex_ind] ''NDVI'' = Inr ex_ind"
     "get_var [''NDVI'' \<mapsto> []] ''NDVI'' = Inr []"
    by (simp_all add: get_var_def)
  show ?thesis
    by (simp add: stage_aggregate_def and_then_def g v)
qed

lemma stage_diff_ex: "\<exists>s3. stage_diff ex_composites_store = Inr s3"
proof -
  obtain d18 d19 d1819 where d: "diff_18 ex_mpspy = Inr d18" "diff_19 ex_mpspy = Inr d19"
      "diff_1819 ex_mpspy = Inr d1819"
    by (simp add: diff_18_def diff_19_def diff_1819_def isel_ex)
  have g: "get_composites ex_composites_store ''mpspy'' = Inr ex_mpspy"
    by (simp add: get_composites_def ex_composites_store_def)
  show ?thesis
    by (simp add: stage_diff_def and_then_def g d)
qed

theorem stages_frame_witness:
  "(\<exists>st'. stage_mask ex_loaded_store = Inr st' \<and> st' ''ds_s2'' = ex_loaded_store ''ds_s2'' \<and>
        st' ''ds_l8'' = ex_loaded_store ''ds_l8'') \<and>
   (\<exists>st'. stage_aggregate ex_index_store = Inr st' \<and> st' ''s2'' = ex_index_store ''s2'' \<and>
        st' ''l8'' = ex_index_store ''l8'') \<and>
   (\<exists>st'. stage_diff ex_composites_store = Inr st' \<and>
        st' ''mpspy'' = ex_composites_store ''mpspy'') \<and>
   (\<exists>st' a'. stage_index tanh ex_store = Inr st' \<and> st' ''s2'' = Some (Dataset a') \<and>
        a' ''red'' = ex_masked ''red'' \<and> a' ''nir'' = ex_masked ''nir'' \<and> a' ''NDVI'' \<noteq> None)"
proof -
  obtain s1 where s1: "stage_mask ex_loaded_store = Inr s1"
    using stage_mask_ex by blast
  obtain s2 where s2: "stage_aggregate ex_index_store = Inr s2"
    using stage_aggregate_ex by blast
  obtain s3 where s3: "stage_diff ex_composites_store = Inr s3"
    using stage_diff_ex by blast
  obtain s4 where s4: "stage_index tanh ex_store = Inr s4"
    by (simp add: stage_index_ex)
  note f1 = stages_frame [of ex_loaded_store s1, THEN conjunct1, rule_format, OF s1]
  note f2 = stages_frame [of ex_index_store s2, THEN conjunct2, THEN conjunct1, rule_format, OF s2]
  note f3 = stages_frame [of ex_composites_store s3, THEN conjunct2, THEN conjunct2,
      THEN conjunct1, rule_format, OF s3]
  note f4 = stages_frame [of ex_store s4 tanh, THEN conjunct2, THEN conjunct2,
      THEN conjunct2, rule_format, OF s4]
  have 1: "s1 ''ds_s2'' = ex_loaded_store ''ds_s2''" "s1 ''ds_l8'' = ex_loaded_store ''ds_l8''"
    by (rule f1; simp)+
  have 2: "s2 ''s2'' = ex_index_store ''s2''" "s2 ''l8'' = ex_index_store ''l8''"
    by (rule f2; simp)+
  have 3: "s3 ''mpspy'' = ex_composites_store ''mpspy''"
    by (rule f3) simp
  have "\<exists>a a'. ex_store ''s2'' = Some (Dataset a) \<and> s4 ''s2'' = Some (Dataset a') \<and>
          (\<forall>v. v \<notin> {''NDVI'', ''kNDVI''} \<longrightarrow> a' v = a v) \<and>
          a' ''NDVI'' \<noteq> None \<and> a' ''kNDVI'' \<noteq> None"
    using f4 [THEN conjunct2] by simp
  then obtain a' where a': "s4 ''s2'' = Some (Dataset a')"
      "\<forall>v. v \<notin> {''NDVI'', ''kNDVI''} \<longrightarrow> a' v = ex_masked v" "a' ''NDVI'' \<noteq> None"
    by (auto simp: ex_store_def)
  have 4: "a' ''red'' = ex_masked ''red''" "a' ''nir'' = ex_masked ''nir''"
    using a'(2) by simp_all
  show ?thesis using s1 s2 s3 s4 1 2 3 4 a'(1,3) by blast
qed

end
